theory Spec2Isabelle
  imports Main "HOL-Library.AList"
begin

section \<open>Data model\<close>

text \<open>
  Shallow embedding of \<^verbatim>\<open>rapair_docx.py\<close>. File contents and messages are strings.
  A path of the host file system is a parent directory (a list of components) and a
  final component, as \<^verbatim>\<open>pathlib.Path\<close> splits it; a path inside the extracted scratch
  directory is the list of its components relative to that directory.
\<close>

datatype path = Path (parent: "string list") (name: string)

type_synonym relpath = "string list"

text \<open>
  The entries of a zip container or of the scratch directory, each under its name split at
  the slashes. A regular file is an entry with its content. A directory entry, whose name
  ends in a slash (\<^verbatim>\<open>customXml/\<close>), is an entry whose last component is empty;
  \<^verbatim>\<open>extractall\<close> makes an empty directory from it. A directory is present exactly when some
  entry lies below it.
\<close>

type_synonym tree = "(relpath \<times> string) list"

record report =
  input_path :: string
  backup_path :: "string option"
  timestamp :: string
  actions :: "(string \<times> string) list"
  errors :: "(string \<times> string) list"
  final_docx :: "string option"
  final_docx_ok :: "bool option"

text \<open>
  What a file of the host file system holds. \<open>Zip t\<close> is a readable zip container with the
  entries \<open>t\<close>; \<open>Json r\<close> is the text \<^verbatim>\<open>json.dump\<close> writes for the report data
  \<open>r\<close>; \<open>Raw s\<close> is any other content (in particular one that does not open as a zip
  container).
\<close>

datatype fdata = Raw string | Zip tree | Json report

text \<open>An element of an lxml tree: tag in Clark notation, attributes, text before the first
  child (\<^verbatim>\<open>.text\<close>), children, and text after the closing tag (\<^verbatim>\<open>.tail\<close>).\<close>

datatype xml = Element (tag: string) (attrib: "(string \<times> string) list")
  (etext: "string option") (children: "xml list") (etail: "string option")

text \<open>Ghost record of what a run did: the pipeline stages it entered, the conversion calls
  it made (source, format, output file), the report saves and the unlinks.\<close>

datatype stage = Backup | Extract | MetadataRepair | Sanitize | StructuralClean | Rebuild
  | Validate | Fallback | Persist | Cleanup

datatype event = Enter stage | Convert path string path | Save path | Unlink path

text \<open>
  The collaborators the script only calls. \<open>has_lxml\<close>, \<open>has_docx\<close> and \<open>has_pypandoc\<close>
  say whether the three optional imports succeeded. \<open>iso_at k\<close> and \<open>stamp_at k\<close> are the
  two renderings (\<^verbatim>\<open>isoformat()\<close>, \<^verbatim>\<open>strftime("%Y%m%d%H%M%S")\<close>) of the \<open>k\<close>-th reading of the
  UTC clock. \<open>writable p\<close> says whether opening \<open>p\<close> for writing succeeds; \<open>oserror s\<close> is
  the text of the exception raised when a file operation on \<open>s\<close> fails. A sum result is
  \<open>Inl\<close> of the exception's text when the call raises; \<open>docx_open\<close>, \<open>pandoc_version\<close> and
  \<open>rmtree_error\<close> are \<open>Some\<close> of that text when the call raises. \<open>pandoc_convert fmt d\<close> is the
  conversion of content \<open>d\<close> to format \<open>fmt\<close>: it raises, or returns having produced an output
  file or none.
\<close>

record env =
  has_lxml :: bool
  has_docx :: bool
  has_pypandoc :: bool
  iso_at :: "nat \<Rightarrow> string"
  stamp_at :: "nat \<Rightarrow> string"
  writable :: "path \<Rightarrow> bool"
  oserror :: "string \<Rightarrow> string"
  mkdtemp :: string
  unzip_error :: "fdata \<Rightarrow> string"
  lxml_parse :: "string \<Rightarrow> string + xml"
  lxml_fromstring :: "string \<Rightarrow> string + xml"
  lxml_tostring :: "xml \<Rightarrow> string + string"
  docx_open :: "fdata \<Rightarrow> string option"
  pandoc_version :: "string option"
  pandoc_convert :: "string \<Rightarrow> fdata \<Rightarrow> string + fdata option"
  unlinkable :: "path \<Rightarrow> bool"
  rmtree_error :: "string option"

text \<open>The state a run threads through: the host files, the scratch directory and whether
  it exists, the report, the number of clock readings so far, and the ghost trace.\<close>

record world =
  files :: "path \<Rightarrow> fdata option"
  scratch :: tree
  scratch_live :: bool
  rep :: report
  ticks :: nat
  trace :: "event list"

section \<open>Paths\<close>

fun intercalate :: "string \<Rightarrow> string list \<Rightarrow> string" where
  "intercalate sep [] = []"
| "intercalate sep [x] = x"
| "intercalate sep (x # y # ys) = x @ sep @ intercalate sep (y # ys)"

definition rel_str :: "relpath \<Rightarrow> string" where
  "rel_str p = intercalate ''/'' p"

text \<open>\<^verbatim>\<open>str(path)\<close>; the empty path is rendered as a dot.\<close>

definition path_str :: "path \<Rightarrow> string" where
  "path_str p =
     (if parent p = [] \<and> name p = [] then ''.''
      else intercalate ''/'' (parent p @ [name p]))"

text \<open>\<^verbatim>\<open>str.rfind('.')\<close>: the index of the last dot, if there is one.\<close>

fun rfind_dot :: "string \<Rightarrow> nat option" where
  "rfind_dot [] = None"
| "rfind_dot (c # cs) =
     (case rfind_dot cs of
        Some i \<Rightarrow> Some (Suc i)
      | None \<Rightarrow> if c = CHR ''.'' then Some 0 else None)"

text \<open>\<^verbatim>\<open>PurePath.suffix\<close> and \<^verbatim>\<open>PurePath.stem\<close>: the name is split at its last dot unless
  that dot is the first or the last character.\<close>

definition suffix_of :: "string \<Rightarrow> string" where
  "suffix_of n =
     (case rfind_dot n of
        Some i \<Rightarrow> if 0 < i \<and> i < length n - 1 then drop i n else []
      | None \<Rightarrow> [])"

definition stem_of :: "string \<Rightarrow> string" where
  "stem_of n =
     (case rfind_dot n of
        Some i \<Rightarrow> if 0 < i \<and> i < length n - 1 then take i n else n
      | None \<Rightarrow> n)"

text \<open>\<^verbatim>\<open>with_name\<close> and \<^verbatim>\<open>with_suffix\<close> raise \<^verbatim>\<open>ValueError\<close> on a path with an empty name;
  the message shows the \<^verbatim>\<open>repr\<close> of the path (of a \<^verbatim>\<open>PosixPath\<close>). The suffixes the script passes all start with a dot and hold no separator, so the
  argument check of \<^verbatim>\<open>with_suffix\<close> never fires.\<close>

definition empty_name_error :: "path \<Rightarrow> string" where
  "empty_name_error p =
     ''PosixPath('' @ [CHR 0x27] @ path_str p @ [CHR 0x27] @ '') has an empty name''"

definition with_name :: "path \<Rightarrow> string \<Rightarrow> string + path" where
  "with_name p n =
     (if name p = [] then Inl (empty_name_error p) else Inr (Path (parent p) n))"

definition with_suffix :: "path \<Rightarrow> string \<Rightarrow> string + path" where
  "with_suffix p s =
     (if name p = [] then Inl (empty_name_error p)
      else if suffix_of (name p) = [] then Inr (Path (parent p) (name p @ s))
      else Inr (Path (parent p)
             (take (length (name p) - length (suffix_of (name p))) (name p) @ s)))"

section \<open>The report\<close>

definition REPORT_new :: "env \<Rightarrow> nat \<Rightarrow> string \<Rightarrow> report" where
  "REPORT_new e k inp =
     \<lparr> input_path = inp, backup_path = None, timestamp = iso_at e k @ ''Z'',
       actions = [], errors = [], final_docx = None, final_docx_ok = None \<rparr>"

definition now_ts :: "env \<Rightarrow> world \<Rightarrow> string \<times> world" where
  "now_ts e w = (iso_at e (ticks w) @ ''Z'', w\<lparr>ticks := Suc (ticks w)\<rparr>)"

definition add_action :: "env \<Rightarrow> string \<Rightarrow> world \<Rightarrow> world" where
  "add_action e msg w =
     (case now_ts e w of
        (t, w1) \<Rightarrow> w1\<lparr>rep := (rep w1)\<lparr>actions := actions (rep w1) @ [(t, msg)]\<rparr>\<rparr>)"

definition add_error :: "env \<Rightarrow> string \<Rightarrow> world \<Rightarrow> world" where
  "add_error e msg w =
     (case now_ts e w of
        (t, w1) \<Rightarrow> w1\<lparr>rep := (rep w1)\<lparr>errors := errors (rep w1) @ [(t, msg)]\<rparr>\<rparr>)"

text \<open>\<^verbatim>\<open>RepairReport.save\<close>: opening the file may fail; otherwise the report data as it is
  at this moment is written.\<close>

definition save :: "env \<Rightarrow> path \<Rightarrow> world \<Rightarrow> (string + unit) \<times> world" where
  "save e p w =
     (if writable e p
      then (Inr (), w\<lparr>files := (files w)(p \<mapsto> Json (rep w)), trace := trace w @ [Save p]\<rparr>)
      else (Inl (oserror e (path_str p)), w))"

section \<open>Sequencing with exceptions\<close>

text \<open>A call returns a value or raises (\<open>Inl\<close> of the exception text), and leaves a state
  either way: what was logged before a raise stays logged.\<close>

type_synonym 'a call = "world \<Rightarrow> (string + 'a) \<times> world"

definition bind :: "'a call \<Rightarrow> ('a \<Rightarrow> 'b call) \<Rightarrow> 'b call" where
  "bind m f w = (case m w of (Inl x, w1) \<Rightarrow> (Inl x, w1) | (Inr a, w1) \<Rightarrow> f a w1)"

definition ret :: "'a \<Rightarrow> 'a call" where
  "ret a w = (Inr a, w)"

definition lift :: "(world \<Rightarrow> world) \<Rightarrow> unit call" where
  "lift f w = (Inr (), f w)"

definition raise :: "string \<Rightarrow> 'a call" where
  "raise x w = (Inl x, w)"

definition pure :: "string + 'a \<Rightarrow> 'a call" where
  "pure r w = (r, w)"

definition enter :: "stage \<Rightarrow> world \<Rightarrow> world" where
  "enter s w = w\<lparr>trace := trace w @ [Enter s]\<rparr>"

section \<open>The scratch directory\<close>

definition is_file :: "tree \<Rightarrow> relpath \<Rightarrow> bool" where
  "is_file t p = (map_of t p \<noteq> None)"

definition below :: "relpath \<Rightarrow> relpath \<Rightarrow> bool" where
  "below p q = (length p < length q \<and> take (length p) q = p)"

definition is_dir :: "tree \<Rightarrow> relpath \<Rightarrow> bool" where
  "is_dir t p = list_ex (\<lambda>(q, c). below p q) t"

definition path_exists :: "tree \<Rightarrow> relpath \<Rightarrow> bool" where
  "path_exists t p = (is_file t p \<or> is_dir t p)"

definition scratch_str :: "env \<Rightarrow> relpath \<Rightarrow> string" where
  "scratch_str e p = intercalate ''/'' (mkdtemp e # p)"

text \<open>\<^verbatim>\<open>write_text_file\<close>: \<^verbatim>\<open>mkdir(parents=True, exist_ok=True)\<close> on the parent raises when
  an ancestor is a regular file, and \<^verbatim>\<open>open(path, "w")\<close> raises when the path is a
  directory; otherwise the file is created or overwritten.\<close>

definition ancestor_is_file :: "tree \<Rightarrow> relpath \<Rightarrow> bool" where
  "ancestor_is_file t p = list_ex (\<lambda>n. is_file t (take n p)) [1..<length p]"

definition write_text_file :: "env \<Rightarrow> relpath \<Rightarrow> string \<Rightarrow> unit call" where
  "write_text_file e p txt w =
     (if ancestor_is_file (scratch w) p \<or> is_dir (scratch w) p
      then (Inl (oserror e (scratch_str e p)), w)
      else (Inr (), w\<lparr>scratch := AList.update p txt (scratch w)\<rparr>))"

section \<open>Low-level helpers\<close>

definition ensure_pandoc_available :: "env \<Rightarrow> world \<Rightarrow> bool \<times> world" where
  "ensure_pandoc_available e w =
     (if \<not> has_pypandoc e
      then (False, add_action e ''pypandoc not installed; pandoc fallback disabled.'' w)
      else (case pandoc_version e of
              None \<Rightarrow> (True, add_action e ''pandoc found via pypandoc.'' w)
            | Some x \<Rightarrow> (False, add_error e (''pandoc not available: '' @ x) w)))"

text \<open>\<^verbatim>\<open>shutil.copy2\<close>: refuses to copy a file onto itself, needs the source to exist and the
  destination to open for writing.\<close>

definition copy2 :: "env \<Rightarrow> path \<Rightarrow> path \<Rightarrow> unit call" where
  "copy2 e src dst w =
     (if src = dst then (Inl (oserror e (path_str src)), w)
      else (case files w src of
              None \<Rightarrow> (Inl (oserror e (path_str src)), w)
            | Some d \<Rightarrow>
                if writable e dst then (Inr (), w\<lparr>files := (files w)(dst \<mapsto> d)\<rparr>)
                else (Inl (oserror e (path_str dst)), w)))"

definition backup_file :: "env \<Rightarrow> path \<Rightarrow> path call" where
  "backup_file e src w =
     (let stamp = stamp_at e (ticks w); w0 = w\<lparr>ticks := Suc (ticks w)\<rparr> in
      bind (pure (with_suffix src (suffix_of (name src) @ ''.backup.'' @ stamp))) (\<lambda>dst.
      bind (copy2 e src dst) (\<lambda>_.
      bind (lift (\<lambda>w1. w1\<lparr>rep := (rep w1)\<lparr>backup_path := Some (path_str dst)\<rparr>\<rparr>)) (\<lambda>_.
      bind (lift (add_action e (''Backed up original file to '' @ path_str dst))) (\<lambda>_.
      ret dst)))) w0)"

text \<open>\<^verbatim>\<open>unzip_to_temp\<close>: the scratch directory is created, then the archive is opened and
  extracted; a failure is logged and raised again.\<close>

definition unzip_to_temp :: "env \<Rightarrow> path \<Rightarrow> unit call" where
  "unzip_to_temp e docx_path w =
     (let w1 = add_action e (''Created temp dir '' @ mkdtemp e)
                 (w\<lparr>scratch := [], scratch_live := True\<rparr>) in
      case files w1 docx_path of
        Some (Zip t) \<Rightarrow>
          (Inr (), add_action e ''Extracted docx zip to temp dir'' (w1\<lparr>scratch := t\<rparr>))
      | Some d \<Rightarrow>
          (Inl (unzip_error e d),
           add_error e (''Failed to unzip '' @ path_str docx_path @ '': '' @ unzip_error e d) w1)
      | None \<Rightarrow>
          (Inl (oserror e (path_str docx_path)),
           add_error e (''Failed to unzip '' @ path_str docx_path @ '': ''
                          @ oserror e (path_str docx_path)) w1))"

text \<open>\<^verbatim>\<open>rezip_from_temp\<close>: opening the output archive may fail; otherwise every regular file
  of the scratch directory is written under its relative name (the order of \<^verbatim>\<open>os.walk\<close>
  is taken to be the order of the list). Directories get no entry of their own, so an
  empty directory is not in the archive.\<close>

definition regular :: "tree \<Rightarrow> tree" where
  "regular t = filter (\<lambda>(p, c). p \<noteq> [] \<and> last p \<noteq> []) t"

definition rezip_from_temp :: "env \<Rightarrow> path \<Rightarrow> unit call" where
  "rezip_from_temp e out_docx w =
     (if writable e out_docx
      then (Inr (), add_action e (''Rebuilt docx as '' @ path_str out_docx)
                      (w\<lparr>files := (files w)(out_docx \<mapsto> Zip (regular (scratch w)))\<rparr>))
      else (Inl (oserror e (path_str out_docx)), w))"

text \<open>\<^verbatim>\<open>safe_parse_xml\<close>: \<open>(ok, pretty_xml_or_error)\<close>. Reading the file, parsing it in
  recovering mode and serialising the tree may each raise; every exception is caught
  and logged.\<close>

definition parse_pretty :: "env \<Rightarrow> tree \<Rightarrow> relpath \<Rightarrow> string + string" where
  "parse_pretty e t p =
     (case map_of t p of
        None \<Rightarrow> Inl (oserror e (scratch_str e p))
      | Some bytes \<Rightarrow>
          (case lxml_parse e bytes of
             Inl x \<Rightarrow> Inl x
           | Inr tr \<Rightarrow> lxml_tostring e tr))"

definition safe_parse_xml :: "env \<Rightarrow> relpath \<Rightarrow> world \<Rightarrow> (bool \<times> string) \<times> world" where
  "safe_parse_xml e p w =
     (if \<not> has_lxml e
      then ((False, ''lxml missing''),
            add_error e ''lxml not installed; cannot parse XML safely.'' w)
      else (case parse_pretty e (scratch w) p of
              Inr pretty \<Rightarrow> ((True, pretty), w)
            | Inl x \<Rightarrow>
                ((False, x),
                 add_error e (''XML parse error for '' @ scratch_str e p @ '': '' @ x) w)))"

section \<open>Metadata repair\<close>

text \<open>
  \<^verbatim>\<open>str.strip()\<close> removes leading and trailing whitespace. Text is held in UTF-8, so a
  whitespace character of \<^verbatim>\<open>str.isspace\<close> is one to three bytes: the ASCII ones (U+0009 to
  U+000D, U+001C to U+0020), then U+0085, U+00A0, U+1680, U+2000 to U+200A, U+2028,
  U+2029, U+202F, U+205F and U+3000.
\<close>

definition whitespace :: "string list" where
  "whitespace =
     [[CHR 0x09], [CHR 0x0A], [CHR 0x0B], [CHR 0x0C], [CHR 0x0D],
      [CHR 0x1C], [CHR 0x1D], [CHR 0x1E], [CHR 0x1F], [CHR 0x20],
      [CHR 0xC2, CHR 0x85], [CHR 0xC2, CHR 0xA0], [CHR 0xE1, CHR 0x9A, CHR 0x80],
      [CHR 0xE2, CHR 0x80, CHR 0x80], [CHR 0xE2, CHR 0x80, CHR 0x81],
      [CHR 0xE2, CHR 0x80, CHR 0x82], [CHR 0xE2, CHR 0x80, CHR 0x83],
      [CHR 0xE2, CHR 0x80, CHR 0x84], [CHR 0xE2, CHR 0x80, CHR 0x85],
      [CHR 0xE2, CHR 0x80, CHR 0x86], [CHR 0xE2, CHR 0x80, CHR 0x87],
      [CHR 0xE2, CHR 0x80, CHR 0x88], [CHR 0xE2, CHR 0x80, CHR 0x89],
      [CHR 0xE2, CHR 0x80, CHR 0x8A], [CHR 0xE2, CHR 0x80, CHR 0xA8],
      [CHR 0xE2, CHR 0x80, CHR 0xA9], [CHR 0xE2, CHR 0x80, CHR 0xAF],
      [CHR 0xE2, CHR 0x81, CHR 0x9F], [CHR 0xE3, CHR 0x80, CHR 0x80]]"

text \<open>The whitespace character a string starts with, if any, and the removal of all
  leading ones; trailing ones are removed on the reversed string.\<close>

definition leading :: "string list \<Rightarrow> string \<Rightarrow> string option" where
  "leading ts s = List.find (\<lambda>t. t \<noteq> [] \<and> take (length t) s = t) ts"

function lstrip :: "string list \<Rightarrow> string \<Rightarrow> string" where
  "lstrip ts s =
     (case leading ts s of None \<Rightarrow> s | Some t \<Rightarrow> lstrip ts (drop (length t) s))"
  by pat_completeness auto
termination
proof (relation "measure (\<lambda>(ts, s). length s)")
  show "wf (measure (\<lambda>(ts, s). length s))" by simp
next
  fix ts s t assume "leading ts s = Some t"
  then have "t \<noteq> []" and "take (length t) s = t"
    by (auto simp: leading_def find_Some_iff)
  then have "s \<noteq> []" by auto
  with \<open>t \<noteq> []\<close> show "((ts, drop (length t) s), (ts, s)) \<in> measure (\<lambda>(ts, s). length s)"
    by simp
qed

definition strip :: "string \<Rightarrow> string" where
  "strip s = rev (lstrip (map rev whitespace) (rev (lstrip whitespace s)))"

text \<open>\<^verbatim>\<open>root.find('.//TAG')\<close>: the first descendant of the root, in document order, that
  carries the tag.\<close>

fun find_self :: "string \<Rightarrow> xml \<Rightarrow> xml option"
  and find_list :: "string \<Rightarrow> xml list \<Rightarrow> xml option" where
  "find_self t (Element tg a tx cs ta) =
     (if tg = t then Some (Element tg a tx cs ta) else find_list t cs)"
| "find_list t [] = None"
| "find_list t (c # cs) =
     (case find_self t c of Some r \<Rightarrow> Some r | None \<Rightarrow> find_list t cs)"

definition find_xml :: "xml \<Rightarrow> string \<Rightarrow> xml option" where
  "find_xml root t = find_list t (children root)"

text \<open>\<^verbatim>\<open>etree.Element(TAG)\<close> with its text set, and \<^verbatim>\<open>root.insert(0, el)\<close>.\<close>

definition new_element :: "string \<Rightarrow> string \<Rightarrow> xml" where
  "new_element t txt = Element t [] (Some txt) [] None"

definition insert0 :: "xml \<Rightarrow> xml \<Rightarrow> xml" where
  "insert0 el root =
     Element (tag root) (attrib root) (etext root) (el # children root) (etail root)"

definition dc_title :: string where
  "dc_title = ''{http://purl.org/dc/elements/1.1/}title''"

definition dc_creator :: string where
  "dc_creator = ''{http://purl.org/dc/elements/1.1/}creator''"

definition core_path :: relpath where
  "core_path = [''docProps'', ''core.xml'']"

definition nl :: string where
  "nl = [CHR 0x0A]"

definition minimal_core :: "string \<Rightarrow> string \<Rightarrow> string" where
  \<open>minimal_core created modified =
     ''<?xml version="1.0" encoding="UTF-8" standalone="yes"?>'' @ nl @
     ''<cp:coreProperties xmlns:cp="http://schemas.openxmlformats.org/package/2006/metadata/core-properties"'' @ nl @
     '' xmlns:dc="http://purl.org/dc/elements/1.1/"'' @ nl @
     '' xmlns:dcterms="http://purl.org/dc/terms/"'' @ nl @
     '' xmlns:xsi="http://www.w3.org/2001/XMLSchema-instance">'' @ nl @
     ''  <dc:title>Repaired Document</dc:title>'' @ nl @
     ''  <dc:creator>AutoRepair</dc:creator>'' @ nl @
     ''  <cp:lastModifiedBy>AutoRepair</cp:lastModifiedBy>'' @ nl @
     ''  <dcterms:created xsi:type="dcterms:W3CDTF">'' @ created @ ''Z</dcterms:created>'' @ nl @
     ''  <dcterms:modified xsi:type="dcterms:W3CDTF">'' @ modified @ ''Z</dcterms:modified>'' @ nl @
     ''</cp:coreProperties>''\<close>

text \<open>Lines 192 to 204: both lookups are made on the parsed root, then the title is
  inserted when it is missing or blank, and the creator when it is missing.\<close>

definition title_missing :: "xml \<Rightarrow> bool" where
  "title_missing root =
     (case find_xml root dc_title of
        None \<Rightarrow> True
      | Some title \<Rightarrow> strip (case etext title of None \<Rightarrow> [] | Some s \<Rightarrow> s) = [])"

definition creator_missing :: "xml \<Rightarrow> bool" where
  "creator_missing root = (find_xml root dc_creator = None)"

definition ensure_title :: "env \<Rightarrow> bool \<Rightarrow> xml \<Rightarrow> world \<Rightarrow> xml \<times> world" where
  "ensure_title e missing root w =
     (if missing
      then (insert0 (new_element dc_title ''Repaired Document'') root,
            add_action e ''Inserted missing title tag in core.xml'' w)
      else (root, w))"

definition ensure_creator :: "env \<Rightarrow> bool \<Rightarrow> xml \<Rightarrow> world \<Rightarrow> xml \<times> world" where
  "ensure_creator e missing root w =
     (if missing
      then (insert0 (new_element dc_creator ''AutoRepair'') root,
            add_action e ''Inserted missing creator tag in core.xml'' w)
      else (root, w))"

definition ensure_tags :: "env \<Rightarrow> xml \<Rightarrow> world \<Rightarrow> xml \<times> world" where
  "ensure_tags e root w =
     (let no_title = title_missing root; no_creator = creator_missing root in
      case ensure_title e no_title root w of
        (root1, w1) \<Rightarrow> ensure_creator e no_creator root1 w1)"

text \<open>The body of the \<^verbatim>\<open>try\<close> of lines 188 to 207.\<close>

definition rewrite_core :: "env \<Rightarrow> string \<Rightarrow> unit call" where
  "rewrite_core e content =
     bind (pure (lxml_fromstring e content)) (\<lambda>root.
     (\<lambda>w. case ensure_tags e root w of
        (root2, w2) \<Rightarrow>
          bind (pure (lxml_tostring e root2)) (\<lambda>pretty.
          bind (write_text_file e core_path pretty) (\<lambda>_.
          lift (add_action e ''Rewrote core.xml with ensured basic metadata''))) w2))"

definition fix_core_properties :: "env \<Rightarrow> unit call" where
  "fix_core_properties e w =
     (if \<not> path_exists (scratch w) core_path
      then (Inr (), add_action e ''No core.xml found - nothing to fix for metadata.'' w)
      else (case safe_parse_xml e core_path w of
              ((ok, content), w1) \<Rightarrow>
                if \<not> ok
                then (let w2 = add_action e
                                 ''Attempting to rewrite core.xml with safer template.'' w1;
                          minimal = minimal_core (iso_at e (ticks w2))
                                      (iso_at e (Suc (ticks w2)));
                          w3 = w2\<lparr>ticks := Suc (Suc (ticks w2))\<rparr>
                      in bind (write_text_file e core_path minimal) (\<lambda>_.
                         lift (add_action e ''Wrote minimal core.xml'')) w3)
                else (case rewrite_core e content w1 of
                        (Inr u, w2) \<Rightarrow> (Inr (), w2)
                      | (Inl x, w2) \<Rightarrow>
                          (Inr (), add_error e
                             (''Failed to rewrite core.xml properly: '' @ x) w2))))"

section \<open>XML sanitization\<close>

definition sanitize_one :: "env \<Rightarrow> relpath \<Rightarrow> world \<Rightarrow> world" where
  "sanitize_one e rel w =
     (if \<not> path_exists (scratch w) rel
      then add_action e (rel_str rel @ '' not present; skipping.'') w
      else (case safe_parse_xml e rel w of
              ((ok, content), w1) \<Rightarrow>
                if ok
                then (case write_text_file e rel content w1 of
                        (Inr u, w2) \<Rightarrow> add_action e (''Sanitized XML for '' @ rel_str rel) w2
                      | (Inl x, w2) \<Rightarrow>
                          add_error e (''Failed to write sanitized XML to '' @ rel_str rel
                                         @ '': '' @ x) w2)
                else add_action e (''Could not fully parse '' @ rel_str rel
                                     @ ''; leaving for pandoc fallback.'') w1))"

fun sanitize_xml_files :: "env \<Rightarrow> relpath list \<Rightarrow> world \<Rightarrow> world" where
  "sanitize_xml_files e [] w = w"
| "sanitize_xml_files e (rel # rest) w = sanitize_xml_files e rest (sanitize_one e rel w)"

definition target_files :: "relpath list" where
  "target_files = [[''word'', ''document.xml''], [''word'', ''styles.xml''],
                   [''word'', ''_rels'', ''document.xml.rels'']]"

section \<open>Structural clean\<close>

text \<open>Renaming a file or directory of the scratch tree: every file at or below \<open>src\<close>
  moves to the same place at or below \<open>dst\<close>.\<close>

definition at_or_below :: "relpath \<Rightarrow> relpath \<Rightarrow> bool" where
  "at_or_below p q = (take (length p) q = p)"

definition rename_path :: "relpath \<Rightarrow> relpath \<Rightarrow> tree \<Rightarrow> tree" where
  "rename_path src dst t =
     map (\<lambda>(q, c). if at_or_below src q then (dst @ drop (length src) q, c) else (q, c)) t"

text \<open>
  \<^verbatim>\<open>shutil.move(src, dst)\<close>. When \<open>dst\<close> is a directory the source moves into it, and the
  call raises if the name is taken there. When \<open>dst\<close> is a regular file, a regular file
  replaces it and a directory cannot (the call raises). Otherwise the source is renamed.
\<close>

definition move :: "env \<Rightarrow> relpath \<Rightarrow> relpath \<Rightarrow> unit call" where
  "move e src dst w =
     (let t = scratch w in
      if is_dir t dst
      then (let real_dst = dst @ [last src] in
            if path_exists t real_dst
            then (Inl (''Destination path '' @ [CHR 0x27] @ scratch_str e real_dst
                         @ [CHR 0x27] @ '' already exists''), w)
            else (Inr (), w\<lparr>scratch := rename_path src real_dst t\<rparr>))
      else if is_file t dst
      then (if is_dir t src then (Inl (oserror e (scratch_str e dst)), w)
            else (Inr (), w\<lparr>scratch := rename_path src dst (AList.delete dst t)\<rparr>))
      else (Inr (), w\<lparr>scratch := rename_path src dst t\<rparr>))"

definition remove_custom_xml :: "env \<Rightarrow> unit call" where
  "remove_custom_xml e w =
     (if path_exists (scratch w) [''customXml'']
      then bind (move e [''customXml''] [''customXml.removed'']) (\<lambda>_.
           lift (add_action e
             ''Moved customXml to customXml.removed (some Word versions choke on custom XML).''))
             w
      else (Inr (), w))"

section \<open>Validation\<close>

definition try_open_with_python_docx :: "env \<Rightarrow> path \<Rightarrow> world \<Rightarrow> bool \<times> world" where
  "try_open_with_python_docx e docx_path w =
     (if \<not> has_docx e
      then (False, add_error e
                     ''python-docx not installed; cannot validate with Document().'' w)
      else (case (case files w docx_path of
                    None \<Rightarrow> Some (oserror e (path_str docx_path))
                  | Some d \<Rightarrow> docx_open e d) of
              None \<Rightarrow>
                (True, add_action e
                   ''python-docx successfully opened the file (basic validation OK).'' w)
            | Some x \<Rightarrow>
                (False, add_error e (''python-docx failed to open file: '' @ x) w)))"

section \<open>Conversion fallback\<close>

text \<open>\<^verbatim>\<open>pypandoc.convert_file(src, fmt, outputfile=dst)\<close>: the call is recorded; it raises
  when the source is missing, when the conversion fails or when the output cannot be
  written; a conversion that returns may still have produced no file.\<close>

definition convert_file :: "env \<Rightarrow> path \<Rightarrow> string \<Rightarrow> path \<Rightarrow> unit call" where
  "convert_file e src fmt dst w =
     (let w1 = w\<lparr>trace := trace w @ [Convert src fmt dst]\<rparr> in
      case files w1 src of
        None \<Rightarrow> (Inl (oserror e (path_str src)), w1)
      | Some d \<Rightarrow>
          (case pandoc_convert e fmt d of
             Inl x \<Rightarrow> (Inl x, w1)
           | Inr None \<Rightarrow> (Inr (), w1)
           | Inr (Some out) \<Rightarrow>
               if writable e dst then (Inr (), w1\<lparr>files := (files w1)(dst \<mapsto> out)\<rparr>)
               else (Inl (oserror e (path_str dst)), w1)))"

text \<open>One round of the cleanup loop: an existing file is unlinked; a failing unlink is
  swallowed.\<close>

definition unlink_quietly :: "env \<Rightarrow> path \<Rightarrow> world \<Rightarrow> world" where
  "unlink_quietly e f w =
     (if files w f \<noteq> None \<and> unlinkable e f
      then w\<lparr>files := (files w)(f := None), trace := trace w @ [Unlink f]\<rparr>
      else w)"

fun cleanup :: "env \<Rightarrow> path list \<Rightarrow> world \<Rightarrow> world" where
  "cleanup e [] w = w"
| "cleanup e (f # fs) w = cleanup e fs (unlink_quietly e f w)"

text \<open>The body of the \<^verbatim>\<open>try\<close> of lines 271 to 281: \<open>True\<close> when the rebuilt document
  replaced the output, \<open>False\<close> when the second conversion left no file.\<close>

definition convert_steps :: "env \<Rightarrow> path \<Rightarrow> path \<Rightarrow> path \<Rightarrow> bool call" where
  "convert_steps e repaired_docx_path tmp_rezip md =
     bind (lift (add_action e ''Running pandoc docx -> md'')) (\<lambda>_.
     bind (convert_file e tmp_rezip ''md'' md) (\<lambda>_.
     bind (lift (add_action e (''Pandoc conversion to markdown saved at '' @ path_str md)))
       (\<lambda>_.
     bind (pure (with_name repaired_docx_path
                   (stem_of (name repaired_docx_path) @ ''.pandoc_rebuilt.docx'')))
       (\<lambda>new_docx.
     bind (lift (add_action e ''Running pandoc md -> docx to rebuild structure'')) (\<lambda>_.
     bind (convert_file e md ''docx'' new_docx) (\<lambda>_.
     (\<lambda>w. if files w new_docx \<noteq> None
          then bind (copy2 e new_docx repaired_docx_path) (\<lambda>_.
               bind (lift (add_action e
                       (''Pandoc rebuilt document replaced repaired docx: ''
                          @ path_str repaired_docx_path))) (\<lambda>_.
               ret True)) w
          else ret False w)))))))"

definition pandoc_roundtrip :: "env \<Rightarrow> path \<Rightarrow> bool call" where
  "pandoc_roundtrip e repaired_docx_path w =
     (case ensure_pandoc_available e w of
        (avail, w1) \<Rightarrow>
          if \<not> avail then (Inr False, w1)
          else
            bind (pure (with_name repaired_docx_path
                          (stem_of (name repaired_docx_path) @ ''.pandoc_temp.docx'')))
              (\<lambda>tmp_rezip.
            bind (rezip_from_temp e tmp_rezip) (\<lambda>_.
            bind (pure (with_suffix tmp_rezip ''.md'')) (\<lambda>md.
            (\<lambda>w2. case convert_steps e repaired_docx_path tmp_rezip md w2 of
               (r, w3) \<Rightarrow>
                 (let w4 = (case r of
                              Inl x \<Rightarrow> add_error e (''Pandoc roundtrip failed: '' @ x) w3
                            | Inr b \<Rightarrow> w3);
                      w5 = cleanup e [tmp_rezip, md] w4
                  in (Inr (case r of Inl x \<Rightarrow> False | Inr b \<Rightarrow> b), w5))))))
              w1)"

section \<open>Orchestration\<close>

text \<open>A stage call, with its entry recorded in the ghost trace.\<close>

definition staged :: "stage \<Rightarrow> 'a call \<Rightarrow> 'a call" where
  "staged s m w = m (enter s w)"

definition output_for :: "path \<Rightarrow> path option \<Rightarrow> string + path" where
  "output_for inp output_path =
     (case output_path of
        None \<Rightarrow> with_name inp (stem_of (name inp) @ ''.repaired.docx'')
      | Some p \<Rightarrow> Inr p)"

text \<open>Lines 305 to 318 of \<^verbatim>\<open>repair_docx\<close>: backup, extraction, the three repairs and the
  rebuild; the value is the path of the rebuilt package.\<close>

definition repair_build :: "env \<Rightarrow> path \<Rightarrow> path option \<Rightarrow> path call" where
  "repair_build e inp output_path =
     bind (staged Backup (backup_file e inp)) (\<lambda>bak.
     bind (staged Extract (unzip_to_temp e inp)) (\<lambda>_.
     bind (staged MetadataRepair (fix_core_properties e)) (\<lambda>_.
     bind (staged Sanitize (lift (sanitize_xml_files e target_files))) (\<lambda>_.
     bind (staged StructuralClean (remove_custom_xml e)) (\<lambda>_.
     bind (pure (output_for inp output_path)) (\<lambda>repaired_docx.
     bind (staged Rebuild (rezip_from_temp e repaired_docx)) (\<lambda>_.
     ret repaired_docx)))))))"

text \<open>Lines 323 to 331: the fallback is entered only when validation failed.\<close>

definition fallback_if_needed :: "env \<Rightarrow> path \<Rightarrow> bool \<Rightarrow> unit call" where
  "fallback_if_needed e repaired_docx ok =
     (if \<not> ok
      then bind (lift (add_action e
                   ''python-docx validation failed - attempting pandoc roundtrip fallback.''))
             (\<lambda>_.
           bind (staged Fallback (pandoc_roundtrip e repaired_docx)) (\<lambda>pandoc_ok.
           if pandoc_ok then lift (add_action e ''Pandoc fallback succeeded.'')
           else lift (add_error e
                  ''Pandoc fallback also failed. Final docx may still be corrupt.'')))
      else lift (add_action e ''Repaired document validated successfully with python-docx.''))"

definition set_final :: "path \<Rightarrow> bool \<Rightarrow> world \<Rightarrow> world" where
  "set_final repaired_docx ok w =
     w\<lparr>rep := (rep w)\<lparr>final_docx := Some (path_str repaired_docx),
                       final_docx_ok := Some ok\<rparr>\<rparr>"

text \<open>Lines 341 to 346: removing the scratch directory; a failure is logged, not raised.\<close>

definition remove_temp :: "env \<Rightarrow> world \<Rightarrow> world" where
  "remove_temp e w =
     (case rmtree_error e of
        None \<Rightarrow> add_action e (''Removed temp dir '' @ mkdtemp e)
                  (w\<lparr>scratch := [], scratch_live := False\<rparr>)
      | Some x \<Rightarrow> add_error e (''Failed to remove temp dir '' @ mkdtemp e @ '': '' @ x) w)"

text \<open>Lines 333 to 346: the final fields, the saved report, and the removal of the
  scratch directory.\<close>

definition persist :: "env \<Rightarrow> path \<Rightarrow> path \<Rightarrow> bool \<Rightarrow> unit call" where
  "persist e inp repaired_docx ok =
     bind (lift (set_final repaired_docx ok)) (\<lambda>_.
     bind (pure (with_suffix inp ''.repair_report.json'')) (\<lambda>report_file.
     bind (staged Persist (save e report_file)) (\<lambda>_.
     bind (lift (add_action e (''Saved repair report to '' @ path_str report_file))) (\<lambda>_.
     staged Cleanup (lift (remove_temp e))))))"

text \<open>Lines 320 to 346 of \<^verbatim>\<open>repair_docx\<close>: validation, the conditional fallback, and the
  end of the run.\<close>

definition repair_finish :: "env \<Rightarrow> path \<Rightarrow> path \<Rightarrow> unit call" where
  "repair_finish e inp repaired_docx =
     bind (lift (add_action e ''Attempting to validate repaired docx with python-docx.''))
       (\<lambda>_.
     (\<lambda>w. case try_open_with_python_docx e repaired_docx (enter Validate w) of
        (ok, w1) \<Rightarrow>
          bind (fallback_if_needed e repaired_docx ok) (\<lambda>_.
          persist e inp repaired_docx ok) w1))"

text \<open>Line 298: the report the run starts with, stamped with the current time.\<close>

definition fresh :: "env \<Rightarrow> path \<Rightarrow> world \<Rightarrow> world" where
  "fresh e inp w = w\<lparr>rep := REPORT_new e (ticks w) (path_str inp), ticks := Suc (ticks w)\<rparr>"

text \<open>Lines 305 to 346, the part of the \<^verbatim>\<open>try\<close> body after the existence check.\<close>

definition repair_body :: "env \<Rightarrow> path \<Rightarrow> path option \<Rightarrow> unit call" where
  "repair_body e inp output_path = bind (repair_build e inp output_path) (repair_finish e inp)"

text \<open>\<^verbatim>\<open>repair_docx\<close>: the report is created, a missing input ends the run at once, and any
  exception that leaves the body is logged by the outer handler. The value is the final
  state, whose field \<open>rep\<close> is the returned report.\<close>

definition repair_docx :: "env \<Rightarrow> path \<Rightarrow> path option \<Rightarrow> world \<Rightarrow> world" where
  "repair_docx e inp output_path w =
     (let w0 = fresh e inp w in
      if files w0 inp = None
      then add_error e (''Input file not found: '' @ path_str inp) w0
      else (case repair_body e inp output_path w0 of
              (Inr u, w1) \<Rightarrow> w1
            | (Inl x, w1) \<Rightarrow> add_error e (''Unexpected error during repair: '' @ x) w1))"

section \<open>A sample environment\<close>

text \<open>A small concrete environment and input, used to run the definitions: a serialiser
  standing in for \<^verbatim>\<open>etree.tostring\<close>, a parser that knows the two sample documents, a
  validator that accepts every package, and a conversion tool that always produces a
  file.\<close>

fun serialize :: "xml \<Rightarrow> string" and serialize_list :: "xml list \<Rightarrow> string" where
  "serialize (Element tg a tx cs ta) =
     ''<'' @ tg @ ''>'' @ (case tx of None \<Rightarrow> [] | Some s \<Rightarrow> s) @ serialize_list cs
       @ ''</'' @ tg @ ''>'' @ (case ta of None \<Rightarrow> [] | Some s \<Rightarrow> s)"
| "serialize_list [] = []"
| "serialize_list (c # cs) = serialize c @ serialize_list cs"

definition sample_document :: xml where
  "sample_document =
     Element ''document'' [] None [Element ''body'' [] (Some ''Hello'') [] None] None"

text \<open>Core properties with a title and a creator element that is present but empty.\<close>

definition sample_core :: xml where
  "sample_core =
     Element ''coreProperties'' [] None
       [Element dc_title [] (Some ''Quarterly'') [] None,
        Element dc_creator [] None [] None] None"

definition sample_parse :: "string \<Rightarrow> string + xml" where
  "sample_parse s =
     (if s = serialize sample_document then Inr sample_document
      else if s = serialize sample_core then Inr sample_core
      else Inl ''Document is empty'')"

definition sample_env :: env where
  "sample_env =
     \<lparr> has_lxml = True, has_docx = True, has_pypandoc = True,
       iso_at = (\<lambda>k. ''2026-01-01T00:00:00''), stamp_at = (\<lambda>k. ''20260101000000''),
       writable = (\<lambda>p. True), oserror = (\<lambda>s. ''cannot access '' @ s),
       mkdtemp = ''/tmp/docx_repair_0'', unzip_error = (\<lambda>d. ''File is not a zip file''),
       lxml_parse = sample_parse, lxml_fromstring = sample_parse,
       lxml_tostring = (\<lambda>t. Inr (serialize t)),
       docx_open = (\<lambda>d. None), pandoc_version = None,
       pandoc_convert = (\<lambda>fmt d. Inr (Some (Raw fmt))),
       unlinkable = (\<lambda>p. True), rmtree_error = None \<rparr>"

definition sample_input :: path where
  "sample_input = Path [''docs''] ''memo.docx''"

definition sample_output :: path where
  "sample_output = Path [''docs''] ''memo.repaired.docx''"

definition sample_report_file :: path where
  "sample_report_file = Path [''docs''] ''memo.repair_report.json''"

definition sample_tree :: tree where
  "sample_tree = [([''word'', ''document.xml''], serialize sample_document),
                  ([''word'', ''media'', ''image1.png''], ''PNG'')]"

definition sample_world :: "fdata \<Rightarrow> world" where
  "sample_world d =
     \<lparr> files = [sample_input \<mapsto> d], scratch = [], scratch_live = False,
       rep = REPORT_new sample_env 0 [], ticks = 0, trace = [] \<rparr>"

text \<open>The conversion tool counts as unavailable when \<^verbatim>\<open>pypandoc\<close> could not be imported or
  its version check raises.\<close>

definition tool_unavailable :: "env \<Rightarrow> bool" where
  "tool_unavailable e = (\<not> has_pypandoc e \<or> pandoc_version e \<noteq> None)"

text \<open>The sanitizer's parse of a part succeeds: lxml is present, the file can be read, and
  parsing and serialising it raise nothing.\<close>

definition parses :: "env \<Rightarrow> tree \<Rightarrow> relpath \<Rightarrow> bool" where
  "parses e t p =
     (has_lxml e \<and> (case parse_pretty e t p of Inl x \<Rightarrow> False | Inr s \<Rightarrow> True))"

text \<open>Two scratch trees agree on the listed parts when each listed path has the same
  content and the same standing (directory or not, below a regular file or not) in
  both; two states agree when their trees do and their reports and clocks are equal.\<close>

definition same_parts :: "relpath list \<Rightarrow> tree \<Rightarrow> tree \<Rightarrow> bool" where
  "same_parts ps t u =
     list_all (\<lambda>p. map_of t p = map_of u p \<and> is_dir t p = is_dir u p
                    \<and> ancestor_is_file t p = ancestor_is_file u p) ps"

definition agree :: "relpath list \<Rightarrow> world \<Rightarrow> world \<Rightarrow> bool" where
  "agree ps w v =
     (same_parts ps (scratch w) (scratch v) \<and> rep w = rep v \<and> ticks w = ticks v)"

text \<open>The sample world with a given tree already extracted.\<close>

definition sample_extracted :: "tree \<Rightarrow> world" where
  "sample_extracted t = (sample_world (Zip t))\<lparr>scratch := t, scratch_live := True\<rparr>"

text \<open>Content that opens as a zip container.\<close>

definition is_zip :: "fdata \<Rightarrow> bool" where
  "is_zip d = (case d of Zip t \<Rightarrow> True | _ \<Rightarrow> False)"

text \<open>The path \<^verbatim>\<open>backup_file\<close> computes in a run started in state \<open>w\<close>: the input name with
  \<^verbatim>\<open>.backup.\<close> and the time stamp appended (the run reads the clock once before, for the
  report).\<close>

definition backup_target :: "env \<Rightarrow> path \<Rightarrow> world \<Rightarrow> path" where
  "backup_target e inp w =
     Path (parent inp) (name inp @ ''.backup.'' @ stamp_at e (Suc (ticks w)))"

text \<open>Projections of the ghost trace: the report files saved, and the stages entered.\<close>

fun saves_of :: "event list \<Rightarrow> path list" where
  "saves_of [] = []"
| "saves_of (Save p # evs) = p # saves_of evs"
| "saves_of (ev # evs) = saves_of evs"

fun stages_of :: "event list \<Rightarrow> stage list" where
  "stages_of [] = []"
| "stages_of (Enter s # evs) = s # stages_of evs"
| "stages_of (ev # evs) = stages_of evs"

text \<open>A call preserves an observation of the state when no run of it, returning or
  raising, changes that observation.\<close>

definition preserves :: "(world \<Rightarrow> 'b) \<Rightarrow> 'a call \<Rightarrow> bool" where
  "preserves f m = (\<forall>w. f (snd (m w)) = f w)"

text \<open>
  Three kinds of observation of the state, by what they can depend on: the host files,
  the trace and the final fields of the report (\<open>host_view\<close>); the trace and the final
  fields only (\<open>log_view\<close>); the stages entered, the reports saved and the final fields only
  (\<open>run_view\<close>). None of them sees the scratch tree, the clock, or the action and error
  lists.
\<close>

definition host_view :: "(world \<Rightarrow> 'b) \<Rightarrow> bool" where
  "host_view f =
     (\<forall>w w'. files w = files w' \<and> trace w = trace w'
        \<and> final_docx (rep w) = final_docx (rep w')
        \<and> final_docx_ok (rep w) = final_docx_ok (rep w') \<longrightarrow> f w = f w')"

definition log_view :: "(world \<Rightarrow> 'b) \<Rightarrow> bool" where
  "log_view f =
     (\<forall>w w'. trace w = trace w'
        \<and> final_docx (rep w) = final_docx (rep w')
        \<and> final_docx_ok (rep w) = final_docx_ok (rep w') \<longrightarrow> f w = f w')"

definition run_view :: "(world \<Rightarrow> 'b) \<Rightarrow> bool" where
  "run_view f =
     (\<forall>w w'. stages_of (trace w) = stages_of (trace w')
        \<and> saves_of (trace w) = saves_of (trace w')
        \<and> final_docx (rep w) = final_docx (rep w')
        \<and> final_docx_ok (rep w) = final_docx_ok (rep w') \<longrightarrow> f w = f w')"

text \<open>What the end of a run appends to the report after saving it: the save action, then
  the action or the error of removing the scratch directory.\<close>

definition saved_actions :: "env \<Rightarrow> path \<Rightarrow> string list" where
  "saved_actions e rf =
     (''Saved repair report to '' @ path_str rf)
       # (case rmtree_error e of None \<Rightarrow> [''Removed temp dir '' @ mkdtemp e] | Some x \<Rightarrow> [])"

definition saved_errors :: "env \<Rightarrow> string list" where
  "saved_errors e =
     (case rmtree_error e of
        None \<Rightarrow> []
      | Some x \<Rightarrow> [''Failed to remove temp dir '' @ mkdtemp e @ '': '' @ x])"

text \<open>\<open>persisted e inp w w'\<close>: between \<open>w\<close> and \<open>w'\<close> the report was saved exactly once, to the
  report file of the input, with its final fields set; the saved copy \<open>r\<close> is not the final
  report, which has in addition what the run logged after the save.\<close>

definition persisted :: "env \<Rightarrow> path \<Rightarrow> world \<Rightarrow> world \<Rightarrow> bool" where
  "persisted e inp w w' =
     (\<exists>rf r. with_suffix inp ''.repair_report.json'' = Inr rf
        \<and> saves_of (trace w') = saves_of (trace w) @ [rf]
        \<and> files w' rf = Some (Json r)
        \<and> final_docx r \<noteq> None \<and> final_docx_ok r \<noteq> None
        \<and> final_docx (rep w') = final_docx r
        \<and> final_docx_ok (rep w') = final_docx_ok r
        \<and> map snd (actions (rep w')) = map snd (actions r) @ saved_actions e rf
        \<and> map snd (errors (rep w')) = map snd (errors r) @ saved_errors e)"

text \<open>A run completes when the input exists and no exception leaves the body.\<close>

definition completes :: "env \<Rightarrow> path \<Rightarrow> path option \<Rightarrow> world \<Rightarrow> bool" where
  "completes e inp outp w =
     (files w inp \<noteq> None \<and> fst (repair_body e inp outp (fresh e inp w)) = Inr ())"

text \<open>Core properties whose title is present but blank.\<close>

definition sample_core_blank_title :: xml where
  "sample_core_blank_title =
     Element ''coreProperties'' [] None
       [Element dc_title [] (Some ''  '') [] None,
        Element dc_creator [] (Some ''Ann'') [] None] None"

text \<open>The creator check as the specification words it (missing, or present with empty or
  whitespace text), for comparison with \<open>creator_missing\<close>, which is the check of the source.\<close>

definition spec_creator_missing :: "xml \<Rightarrow> bool" where
  "spec_creator_missing root =
     (case find_xml root dc_creator of
        None \<Rightarrow> True
      | Some creator \<Rightarrow> strip (case etext creator of None \<Rightarrow> [] | Some s \<Rightarrow> s) = [])"

text \<open>The python-docx load of the file at a path succeeds: this is what
  \<^verbatim>\<open>try_open_with_python_docx\<close> returns.\<close>

definition loads :: "env \<Rightarrow> path \<Rightarrow> world \<Rightarrow> bool" where
  "loads e out w =
     (has_docx e \<and> (case files w out of None \<Rightarrow> False | Some d \<Rightarrow> docx_open e d = None))"

text \<open>The state after validation in \<^verbatim>\<open>repair_docx\<close> (lines 320 and 321), and what the
  fallback returns, or raises, when it is entered from that state (lines 324 and 325).\<close>

definition validated :: "env \<Rightarrow> path \<Rightarrow> world \<Rightarrow> world" where
  "validated e out w =
     snd (try_open_with_python_docx e out
            (enter Validate
               (add_action e ''Attempting to validate repaired docx with python-docx.'' w)))"


text \<open>The sample environment with a validator that rejects every package, and the state
  of the sample run after its rebuild.\<close>

definition sample_env_invalid :: env where
  "sample_env_invalid = sample_env\<lparr>docx_open := (\<lambda>d. Some ''Package not found'')\<rparr>"

definition sample_rebuilt :: world where
  "sample_rebuilt =
     snd (repair_build sample_env_invalid sample_input None (sample_world (Zip sample_tree)))"

text \<open>The three files the fallback names after the output path: the throwaway package, the
  markdown interchange file, and the rebuilt package.\<close>

definition temp_docx :: "path \<Rightarrow> path" where
  "temp_docx out = Path (parent out) (stem_of (name out) @ ''.pandoc_temp.docx'')"

definition temp_md :: "path \<Rightarrow> path" where
  "temp_md out = Path (parent out) (stem_of (name out) @ ''.pandoc_temp.md'')"

definition rebuilt_docx :: "path \<Rightarrow> path" where
  "rebuilt_docx out = Path (parent out) (stem_of (name out) @ ''.pandoc_rebuilt.docx'')"

text \<open>The files unlinked, as the ghost trace records them.\<close>

fun unlinks_of :: "event list \<Rightarrow> path list" where
  "unlinks_of [] = []"
| "unlinks_of (Unlink p # evs) = p # unlinks_of evs"
| "unlinks_of (ev # evs) = unlinks_of evs"

text \<open>Both conversion steps of the fallback succeed from state \<open>w\<close>, the second producing \<open>d\<close>:
  the tool is available, the three files can be written, the throwaway package converts to
  markdown and the markdown converts to \<open>d\<close>.\<close>

definition converts :: "env \<Rightarrow> path \<Rightarrow> world \<Rightarrow> fdata \<Rightarrow> bool" where
  "converts e out w d =
     (name out \<noteq> [] \<and> \<not> tool_unavailable e
      \<and> writable e (temp_docx out) \<and> writable e (temp_md out) \<and> writable e (rebuilt_docx out)
      \<and> (\<exists>m. pandoc_convert e ''md'' (Zip (regular (scratch w))) = Inr (Some m)
              \<and> pandoc_convert e ''docx'' m = Inr (Some d)))"




text \<open>The rejecting sample environment without the conversion tool: \<^verbatim>\<open>pypandoc\<close> could not
  be imported.\<close>

definition sample_env_no_tool :: env where
  "sample_env_no_tool = sample_env_invalid\<lparr>has_pypandoc := False\<rparr>"

section \<open>Basic facts\<close>

lemma add_action_fields [simp]:
  "files (add_action e m w) = files w"
  "scratch (add_action e m w) = scratch w"
  "scratch_live (add_action e m w) = scratch_live w"
  "trace (add_action e m w) = trace w"
  "ticks (add_action e m w) = Suc (ticks w)"
  "errors (rep (add_action e m w)) = errors (rep w)"
  "actions (rep (add_action e m w)) = actions (rep w) @ [(iso_at e (ticks w) @ ''Z'', m)]"
  "final_docx_ok (rep (add_action e m w)) = final_docx_ok (rep w)"
  "final_docx (rep (add_action e m w)) = final_docx (rep w)"
  "backup_path (rep (add_action e m w)) = backup_path (rep w)"
  "input_path (rep (add_action e m w)) = input_path (rep w)"
  "timestamp (rep (add_action e m w)) = timestamp (rep w)"
  by (simp_all add: add_action_def now_ts_def)

lemma add_error_fields [simp]:
  "files (add_error e m w) = files w"
  "scratch (add_error e m w) = scratch w"
  "scratch_live (add_error e m w) = scratch_live w"
  "trace (add_error e m w) = trace w"
  "ticks (add_error e m w) = Suc (ticks w)"
  "actions (rep (add_error e m w)) = actions (rep w)"
  "errors (rep (add_error e m w)) = errors (rep w) @ [(iso_at e (ticks w) @ ''Z'', m)]"
  "final_docx_ok (rep (add_error e m w)) = final_docx_ok (rep w)"
  "final_docx (rep (add_error e m w)) = final_docx (rep w)"
  "backup_path (rep (add_error e m w)) = backup_path (rep w)"
  "input_path (rep (add_error e m w)) = input_path (rep w)"
  "timestamp (rep (add_error e m w)) = timestamp (rep w)"
  by (simp_all add: add_error_def now_ts_def)

lemma enter_fields [simp]:
  "files (enter s w) = files w"
  "scratch (enter s w) = scratch w"
  "scratch_live (enter s w) = scratch_live w"
  "trace (enter s w) = trace w @ [Enter s]"
  "ticks (enter s w) = ticks w"
  "rep (enter s w) = rep w"
  by (simp_all add: enter_def)

lemma bind_simps [simp]:
  "bind (lift f) g w = g () (f w)"
  "bind (ret a) g' w = g' a w"
  "bind (pure (Inr a)) g' w = g' a w"
  "bind (pure (Inl x)) g'' w = (Inl x, w)"
  "bind (raise x) g'' w = (Inl x, w)"
  by (simp_all add: bind_def lift_def ret_def pure_def raise_def)

lemma bind_cases:
  "bind m f w = (r, w') \<longleftrightarrow>
     (\<exists>x. r = Inl x \<and> m w = (Inl x, w')) \<or> (\<exists>a w1. m w = (Inr a, w1) \<and> f a w1 = (r, w'))"
  by (cases "m w") (auto simp: bind_def split: sum.splits)

section \<open>The fallback when the conversion tool is unavailable\<close>

lemma ensure_unavailable:
  "tool_unavailable e \<Longrightarrow> fst (ensure_pandoc_available e w) = False"
  by (auto simp: tool_unavailable_def ensure_pandoc_available_def split: option.splits)

lemma ensure_frame [simp]:
  "files (snd (ensure_pandoc_available e w)) = files w"
  "trace (snd (ensure_pandoc_available e w)) = trace w"
  "scratch (snd (ensure_pandoc_available e w)) = scratch w"
  by (auto simp: ensure_pandoc_available_def split: option.splits)

lemma roundtrip_unavailable:
  assumes "tool_unavailable e"
  shows "pandoc_roundtrip e out w = (Inr False, snd (ensure_pandoc_available e w))"
proof -
  obtain a w1 where ens: "ensure_pandoc_available e w = (a, w1)"
    by (cases "ensure_pandoc_available e w")
  with ensure_unavailable [OF assms, of w] have "a = False" by simp
  with ens show ?thesis by (simp add: pandoc_roundtrip_def)
qed

text \<open>
  Claim C4. When validation has failed and the conversion tool is unavailable (the
  \<^verbatim>\<open>pypandoc\<close> import failed or the version check raises), \<^verbatim>\<open>pandoc_roundtrip\<close> returns
  \<open>False\<close> at once: no conversion is called (the ghost trace gains no event), no host
  file changes, and so after the fallback branch of the orchestrator the file at the
  output path is still the package rebuilt before the fallback was entered.
\<close>

theorem fallback_tool_unavailable:
  assumes "tool_unavailable e"
  shows "fst (pandoc_roundtrip e out w) = Inr False
       \<and> files (snd (pandoc_roundtrip e out w)) = files w
       \<and> trace (snd (pandoc_roundtrip e out w)) = trace w
       \<and> fst (fallback_if_needed e out False w) = Inr ()
       \<and> files (snd (fallback_if_needed e out False w)) = files w
       \<and> trace (snd (fallback_if_needed e out False w)) = trace w @ [Enter Fallback]"
  by (simp add: roundtrip_unavailable [OF assms] fallback_if_needed_def staged_def bind_def
      lift_def)

theorem fallback_tool_unavailable_witness:
  "tool_unavailable sample_env_no_tool
   \<and> \<not> loads sample_env_no_tool sample_output sample_rebuilt
   \<and> files (validated sample_env_no_tool sample_output sample_rebuilt) sample_output
       = Some (Zip sample_tree)
   \<and> fst (pandoc_roundtrip sample_env_no_tool sample_output
            (validated sample_env_no_tool sample_output sample_rebuilt)) = Inr False
   \<and> files (snd (fallback_if_needed sample_env_no_tool sample_output False
                   (validated sample_env_no_tool sample_output sample_rebuilt))) sample_output
       = Some (Zip sample_tree)
   \<and> trace (snd (fallback_if_needed sample_env_no_tool sample_output False
                   (validated sample_env_no_tool sample_output sample_rebuilt)))
       = trace (validated sample_env_no_tool sample_output sample_rebuilt) @ [Enter Fallback]"
proof -
  have h: "tool_unavailable sample_env_no_tool"
    by (simp add: tool_unavailable_def sample_env_no_tool_def)
  have l: "\<not> loads sample_env_no_tool sample_output sample_rebuilt" by code_simp
  have f: "files (validated sample_env_no_tool sample_output sample_rebuilt) sample_output
       = Some (Zip sample_tree)" by code_simp
  from fallback_tool_unavailable [OF h, of sample_output
      "validated sample_env_no_tool sample_output sample_rebuilt"] h l f
  show ?thesis by simp
qed

section \<open>The frame of the sanitization stage\<close>

lemma is_file_keys: "is_file t p \<longleftrightarrow> p \<in> set (map fst t)"
  by (simp add: is_file_def map_of_eq_None_iff)

lemma is_dir_keys: "is_dir t p \<longleftrightarrow> (\<exists>q \<in> set (map fst t). below p q)"
  by (force simp: is_dir_def list_ex_iff)


lemma ancestor_is_file_keys:
  "ancestor_is_file t p \<longleftrightarrow> (\<exists>n \<in> {1..<length p}. take n p \<in> set (map fst t))"
  by (auto simp: ancestor_is_file_def list_ex_iff is_file_keys)

lemma update_keys: "is_file t p \<Longrightarrow> map fst (AList.update p c t) = map fst t"
  by (simp add: is_file_keys update_keys)

lemma safe_parse_frame [simp]:
  "files (snd (safe_parse_xml e p w)) = files w"
  "scratch (snd (safe_parse_xml e p w)) = scratch w"
  "scratch_live (snd (safe_parse_xml e p w)) = scratch_live w"
  "trace (snd (safe_parse_xml e p w)) = trace w"
  by (auto simp: safe_parse_xml_def split: sum.splits)

lemma safe_parse_ok: "fst (fst (safe_parse_xml e p w)) = parses e (scratch w) p"
  by (auto simp: safe_parse_xml_def parses_def split: sum.splits)

lemma write_text_file_cases:
  "write_text_file e p c w = (r, w') \<Longrightarrow>
     (\<exists>x. r = Inl x \<and> w' = w) \<or>
     (r = Inr () \<and> \<not> is_dir (scratch w) p \<and> w' = w\<lparr>scratch := AList.update p c (scratch w)\<rparr>)"
  by (auto simp: write_text_file_def split: if_splits)

lemma safe_parse_xmlE:
  obtains ok content w1 where "safe_parse_xml e p w = ((ok, content), w1)"
    and "files w1 = files w" and "scratch w1 = scratch w" and "trace w1 = trace w"
    and "scratch_live w1 = scratch_live w" and "ok = parses e (scratch w) p"
proof -
  obtain ok content w1 where sp: "safe_parse_xml e p w = ((ok, content), w1)"
    by (cases "safe_parse_xml e p w") auto
  show thesis
    using that [OF sp] safe_parse_frame [of e p w] safe_parse_ok [of e p w] sp by simp
qed

lemma write_text_file_frame [simp]:
  "files (snd (write_text_file e p c w)) = files w"
  "trace (snd (write_text_file e p c w)) = trace w"
  "scratch_live (snd (write_text_file e p c w)) = scratch_live w"
  "rep (snd (write_text_file e p c w)) = rep w"
  "ticks (snd (write_text_file e p c w)) = ticks w"
  by (simp_all add: write_text_file_def)

lemma sanitize_one_frame [simp]:
  "files (sanitize_one e rel w) = files w"
  "trace (sanitize_one e rel w) = trace w"
  "scratch_live (sanitize_one e rel w) = scratch_live w"
proof -
  obtain ok content w1 where sp: "safe_parse_xml e rel w = ((ok, content), w1)"
    and f: "files w1 = files w" "trace w1 = trace w" "scratch_live w1 = scratch_live w"
    by (rule safe_parse_xmlE)
  obtain r w2 where wr: "write_text_file e rel content w1 = (r, w2)"
    by (cases "write_text_file e rel content w1")
  from wr have g: "files w2 = files w1" "trace w2 = trace w1" "scratch_live w2 = scratch_live w1"
    using write_text_file_frame [of e rel content w1] by simp_all
  show "files (sanitize_one e rel w) = files w"
    "trace (sanitize_one e rel w) = trace w"
    "scratch_live (sanitize_one e rel w) = scratch_live w"
    using sp f wr g by (auto simp: sanitize_one_def split: sum.splits)
qed

lemma sanitize_one_scratch:
  "scratch (sanitize_one e rel w) = scratch w \<or>
   (is_file (scratch w) rel \<and> parses e (scratch w) rel \<and>
    (\<exists>c. scratch (sanitize_one e rel w) = AList.update rel c (scratch w)))"
proof (cases "path_exists (scratch w) rel")
  case False
  then show ?thesis by (simp add: sanitize_one_def)
next
  case True
  obtain ok content w1 where sp: "safe_parse_xml e rel w = ((ok, content), w1)"
    by (cases "safe_parse_xml e rel w") auto
  from sp have s1: "scratch w1 = scratch w" using safe_parse_frame(2) [of e rel w] by simp
  from sp have okp: "ok = parses e (scratch w) rel" using safe_parse_ok [of e rel w] by simp
  show ?thesis
  proof (cases ok)
    case False
    with True sp s1 show ?thesis by (simp add: sanitize_one_def)
  next
    case ok: True
    obtain r w2 where wr: "write_text_file e rel content w1 = (r, w2)"
      by (cases "write_text_file e rel content w1")
    from write_text_file_cases [OF wr] show ?thesis
    proof
      assume "\<exists>x. r = Inl x \<and> w2 = w1"
      with True sp s1 ok wr show ?thesis by (auto simp: sanitize_one_def)
    next
      assume a: "r = Inr () \<and> \<not> is_dir (scratch w1) rel \<and> w2 = w1\<lparr>scratch := AList.update rel content (scratch w1)\<rparr>"
      with True s1 have "is_file (scratch w) rel" by (simp add: path_exists_def)
      moreover from a True sp s1 ok wr
      have "scratch (sanitize_one e rel w) = AList.update rel content (scratch w)"
        by (simp add: sanitize_one_def)
      ultimately show ?thesis using ok okp by blast
    qed
  qed
qed

lemma sanitize_one_keys: "map fst (scratch (sanitize_one e rel w)) = map fst (scratch w)"
  using sanitize_one_scratch [of e rel w] by (auto simp: update_keys)

lemma sanitize_one_other:
  "p \<noteq> rel \<or> \<not> parses e (scratch w) p \<Longrightarrow>
   map_of (scratch (sanitize_one e rel w)) p = map_of (scratch w) p"
  using sanitize_one_scratch [of e rel w] by (auto simp: update_conv')

lemma parses_cong: "map_of t p = map_of t' p \<Longrightarrow> parses e t p = parses e t' p"
  by (simp add: parses_def parse_pretty_def)

lemma sanitize_files_keys:
  "map fst (scratch (sanitize_xml_files e rels w)) = map fst (scratch w)"
  by (induction rels arbitrary: w) (simp_all add: sanitize_one_keys)

lemma sanitize_files_frame [simp]:
  "files (sanitize_xml_files e rels w) = files w"
  "trace (sanitize_xml_files e rels w) = trace w"
  "scratch_live (sanitize_xml_files e rels w) = scratch_live w"
  by (induction rels arbitrary: w) simp_all

lemma sanitize_files_other:
  "p \<notin> set rels \<or> \<not> parses e (scratch w) p \<Longrightarrow>
   map_of (scratch (sanitize_xml_files e rels w)) p = map_of (scratch w) p"
proof (induction rels arbitrary: w)
  case Nil
  then show ?case by simp
next
  case (Cons rel rels)
  have one: "map_of (scratch (sanitize_one e rel w)) p = map_of (scratch w) p"
    using Cons.prems by (intro sanitize_one_other) auto
  have "p \<notin> set rels \<or> \<not> parses e (scratch (sanitize_one e rel w)) p"
    using Cons.prems parses_cong [OF one, of e] by auto
  from Cons.IH [OF this] one show ?case by simp
qed


lemma keys_queries:
  assumes "map fst t' = map fst t"
  shows "is_dir t' p = is_dir t p" "ancestor_is_file t' p = ancestor_is_file t p"
    "is_file t' p = is_file t p"
  using assms by (simp_all add: is_dir_keys ancestor_is_file_keys is_file_keys)

lemma sanitize_one_agree:
  assumes ag: "agree ps w v" and rel: "rel \<in> set ps"
  shows "agree ps (sanitize_one e rel w) (sanitize_one e rel v)"
proof -
  from ag rel have q: "map_of (scratch w) rel = map_of (scratch v) rel"
    "is_dir (scratch w) rel = is_dir (scratch v) rel"
    "ancestor_is_file (scratch w) rel = ancestor_is_file (scratch v) rel"
    by (auto simp: agree_def same_parts_def list_all_iff)
  from ag have rt: "rep w = rep v" "ticks w = ticks v" by (simp_all add: agree_def)
  have logs: "rep (sanitize_one e rel w) = rep (sanitize_one e rel v)
            \<and> ticks (sanitize_one e rel w) = ticks (sanitize_one e rel v)"
    using q rt
    by (simp add: sanitize_one_def path_exists_def is_file_def safe_parse_xml_def
        parse_pretty_def write_text_file_def add_action_def add_error_def now_ts_def
        split: option.splits sum.splits)
  have same: "same_parts ps (scratch (sanitize_one e rel w)) (scratch (sanitize_one e rel v))"
    unfolding same_parts_def list_all_iff
  proof
    fix p assume p: "p \<in> set ps"
    from ag p have a: "map_of (scratch w) p = map_of (scratch v) p"
      "is_dir (scratch w) p = is_dir (scratch v) p"
      "ancestor_is_file (scratch w) p = ancestor_is_file (scratch v) p"
      by (auto simp: agree_def same_parts_def list_all_iff)
    have content: "map_of (scratch (sanitize_one e rel w)) p
                 = map_of (scratch (sanitize_one e rel v)) p"
      using q a
      by (simp add: sanitize_one_def path_exists_def is_file_def safe_parse_xml_def
          parse_pretty_def write_text_file_def update_conv'
          split: option.splits sum.splits)
    show "map_of (scratch (sanitize_one e rel w)) p = map_of (scratch (sanitize_one e rel v)) p
        \<and> is_dir (scratch (sanitize_one e rel w)) p = is_dir (scratch (sanitize_one e rel v)) p
        \<and> ancestor_is_file (scratch (sanitize_one e rel w)) p
          = ancestor_is_file (scratch (sanitize_one e rel v)) p"
      using content a
        keys_queries(1,2) [OF sanitize_one_keys, of e rel w p]
        keys_queries(1,2) [OF sanitize_one_keys, of e rel v p]
      by simp
  qed
  from logs same show ?thesis by (simp add: agree_def)
qed

lemma sanitize_files_agree:
  "agree ps w v \<Longrightarrow> set rels \<subseteq> set ps \<Longrightarrow>
   agree ps (sanitize_xml_files e rels w) (sanitize_xml_files e rels v)"
  by (induction rels arbitrary: w v) (simp_all add: sanitize_one_agree)

text \<open>
  Claim C8. The sanitization stage touches only the three allow-listed parts. A file of
  the scratch tree that is not on the list keeps its content, and so does a listed part
  whose parse fails; no file is created or removed, and no host file changes. The stage
  also reads nothing else: two states that agree on the three parts (and on the report so
  far) still agree after the stage, whatever else their trees hold.
\<close>

theorem sanitize_frame:
  "(p \<notin> set target_files \<or> \<not> parses e (scratch w) p \<longrightarrow>
      map_of (scratch (sanitize_xml_files e target_files w)) p = map_of (scratch w) p)
   \<and> map fst (scratch (sanitize_xml_files e target_files w)) = map fst (scratch w)
   \<and> files (sanitize_xml_files e target_files w) = files w
   \<and> (agree target_files w v \<longrightarrow>
        agree target_files (sanitize_xml_files e target_files w)
          (sanitize_xml_files e target_files v))"
  using sanitize_files_other [of p target_files e w]
    sanitize_files_agree [of target_files w v target_files e]
  by (simp add: sanitize_files_keys)

theorem sanitize_frame_witness:
  "[''word'', ''media'', ''image1.png''] \<notin> set target_files
   \<and> agree target_files (sample_extracted sample_tree)
        (sample_extracted [([''word'', ''document.xml''], serialize sample_document),
                           ([''customXml'', ''item1.xml''], ''<x/>'')])
   \<and> map_of (scratch (sanitize_xml_files sample_env target_files
                 (sample_extracted sample_tree))) [''word'', ''media'', ''image1.png'']
       = Some ''PNG''
   \<and> agree target_files
        (sanitize_xml_files sample_env target_files (sample_extracted sample_tree))
        (sanitize_xml_files sample_env target_files
           (sample_extracted [([''word'', ''document.xml''], serialize sample_document),
                              ([''customXml'', ''item1.xml''], ''<x/>'')]))
   \<and> \<not> parses sample_env (scratch (sample_extracted [([''word'', ''styles.xml''], ''<<'')]))
         [''word'', ''styles.xml'']
   \<and> map_of (scratch (sanitize_xml_files sample_env target_files
                 (sample_extracted [([''word'', ''styles.xml''], ''<<'')])))
        [''word'', ''styles.xml''] = Some ''<<''"
proof -
  have h1: "[''word'', ''media'', ''image1.png''] \<notin> set target_files"
    by (simp add: target_files_def)
  have h2: "agree target_files (sample_extracted sample_tree)
        (sample_extracted [([''word'', ''document.xml''], serialize sample_document),
                           ([''customXml'', ''item1.xml''], ''<x/>'')])"
    by code_simp
  have h3: "map_of (scratch (sample_extracted sample_tree)) [''word'', ''media'', ''image1.png'']
       = Some ''PNG''"
    by code_simp
  have h4: "\<not> parses sample_env (scratch (sample_extracted [([''word'', ''styles.xml''], ''<<'')]))
       [''word'', ''styles.xml'']"
    by code_simp
  have h5: "map_of (scratch (sample_extracted [([''word'', ''styles.xml''], ''<<'')]))
       [''word'', ''styles.xml''] = Some ''<<''"
    by code_simp
  from sanitize_frame [of "[''word'', ''media'', ''image1.png'']" sample_env
      "sample_extracted sample_tree"
      "sample_extracted [([''word'', ''document.xml''], serialize sample_document),
                         ([''customXml'', ''item1.xml''], ''<x/>'')]"]
    sanitize_frame [of "[''word'', ''styles.xml'']" sample_env
      "sample_extracted [([''word'', ''styles.xml''], ''<<'')]"]
    h1 h2 h3 h4 h5
  show ?thesis by simp
qed

section \<open>What the stages leave unchanged\<close>

lemma REPORT_new_fields [simp]:
  "input_path (REPORT_new e k s) = s"
  "backup_path (REPORT_new e k s) = None"
  "timestamp (REPORT_new e k s) = iso_at e k @ ''Z''"
  "actions (REPORT_new e k s) = []"
  "errors (REPORT_new e k s) = []"
  "final_docx (REPORT_new e k s) = None"
  "final_docx_ok (REPORT_new e k s) = None"
  by (simp_all add: REPORT_new_def)

lemma fresh_fields [simp]:
  "files (fresh e inp w) = files w"
  "trace (fresh e inp w) = trace w"
  "scratch (fresh e inp w) = scratch w"
  "ticks (fresh e inp w) = Suc (ticks w)"
  "rep (fresh e inp w) = REPORT_new e (ticks w) (path_str inp)"
  by (simp_all add: fresh_def)

lemma saves_of_append [simp]: "saves_of (xs @ ys) = saves_of xs @ saves_of ys"
  by (induction xs rule: saves_of.induct) simp_all

lemma stages_of_append [simp]: "stages_of (xs @ ys) = stages_of xs @ stages_of ys"
  by (induction xs rule: stages_of.induct) simp_all

lemma preservesD: "preserves f m \<Longrightarrow> m w = (r, w') \<Longrightarrow> f w' = f w"
  by (auto simp: preserves_def dest: spec [of _ w])

lemma preserves_bind:
  assumes m: "preserves f m" and g: "\<And>a. preserves f (g a)"
  shows "preserves f (bind m g)"
  unfolding preserves_def
proof
  fix w
  show "f (snd (bind m g w)) = f w"
  proof (cases "m w")
    case (Pair r w1)
    from preservesD [OF m Pair] have t: "f w1 = f w" .
    show ?thesis
    proof (cases r)
      case (Inl x)
      with Pair t show ?thesis by (simp add: bind_def)
    next
      case (Inr a)
      obtain r2 w2 where ga: "g a w1 = (r2, w2)" by (cases "g a w1")
      from preservesD [OF g ga] t Pair Inr ga show ?thesis by (simp add: bind_def)
    qed
  qed
qed

lemma preserves_lift: "(\<And>w. f (h w) = f w) \<Longrightarrow> preserves f (lift h)"
  by (simp add: preserves_def lift_def)

lemma preserves_simple [simp]:
  "preserves f (ret a)" "preserves f (pure r)" "preserves f (raise x)"
  by (simp_all add: preserves_def ret_def pure_def raise_def)

lemma preserves_staged:
  "(\<And>w. f (enter s w) = f w) \<Longrightarrow> preserves f m \<Longrightarrow> preserves f (staged s m)"
  by (simp add: preserves_def staged_def)

lemma preserves_if:
  "(c \<Longrightarrow> preserves f m) \<Longrightarrow> (\<not> c \<Longrightarrow> preserves f n) \<Longrightarrow> preserves f (if c then m else n)"
  by simp

lemma preserves_fun_if:
  "preserves f m \<Longrightarrow> preserves f n \<Longrightarrow> preserves f (\<lambda>w. if c w then m w else n w)"
  by (simp add: preserves_def)

lemma preserves_after:
  assumes h: "\<And>w. f (snd (h w)) = f w" and g: "\<And>a. preserves f (g a)"
  shows "preserves f (\<lambda>w. case h w of (a, w1) \<Rightarrow> g a w1)"
  unfolding preserves_def
proof
  fix w
  obtain a w1 where hw: "h w = (a, w1)" by (cases "h w")
  obtain r w2 where gw: "g a w1 = (r, w2)" by (cases "g a w1")
  from h [of w] hw have "f w1 = f w" by simp
  with preservesD [OF g gw] hw gw
  show "f (snd (case h w of (a, w1) \<Rightarrow> g a w1)) = f w" by simp
qed


lemma log_view_host: "log_view f \<Longrightarrow> host_view f"
  unfolding log_view_def host_view_def by blast

lemma run_view_log: "run_view f \<Longrightarrow> log_view f"
  unfolding run_view_def log_view_def by metis

lemma host_viewI: "host_view f \<Longrightarrow> files w = files w' \<Longrightarrow> trace w = trace w' \<Longrightarrow>
    final_docx (rep w) = final_docx (rep w') \<Longrightarrow>
    final_docx_ok (rep w) = final_docx_ok (rep w') \<Longrightarrow> f w = f w'"
  unfolding host_view_def by blast

lemma log_viewI: "log_view f \<Longrightarrow> trace w = trace w' \<Longrightarrow>
    final_docx (rep w) = final_docx (rep w') \<Longrightarrow>
    final_docx_ok (rep w) = final_docx_ok (rep w') \<Longrightarrow> f w = f w'"
  unfolding log_view_def by blast

lemma run_viewI: "run_view f \<Longrightarrow> stages_of (trace w) = stages_of (trace w') \<Longrightarrow>
    saves_of (trace w) = saves_of (trace w') \<Longrightarrow>
    final_docx (rep w) = final_docx (rep w') \<Longrightarrow>
    final_docx_ok (rep w) = final_docx_ok (rep w') \<Longrightarrow> f w = f w'"
  unfolding run_view_def by blast

lemma views [simp]:
  "host_view files" "log_view trace" "run_view (\<lambda>w. stages_of (trace w))"
  "run_view (\<lambda>w. saves_of (trace w))" "run_view (\<lambda>w. final_docx_ok (rep w))"
  "run_view (\<lambda>w. final_docx (rep w))"
  unfolding host_view_def log_view_def run_view_def by auto

lemma host_view_log:
  assumes "host_view f"
  shows "f (add_action e m w) = f w" "f (add_error e m w) = f w"
    "f (w\<lparr>scratch := t\<rparr>) = f w" "f (w\<lparr>ticks := k\<rparr>) = f w"
    "f (w\<lparr>scratch := t, scratch_live := l\<rparr>) = f w"
  by (rule host_viewI [OF assms]; simp)+

lemma preserves_write_text_file:
  "host_view f \<Longrightarrow> preserves f (write_text_file e p c)"
  by (simp add: preserves_def write_text_file_def host_view_log [of f])

lemma preserves_rewrite_core:
  assumes "host_view f"
  shows "preserves f (rewrite_core e content)"
proof -
  have et: "f (snd (ensure_tags e root w)) = f w" for root w
    by (simp add: ensure_tags_def ensure_title_def ensure_creator_def Let_def
        host_view_log [OF assms])
  show ?thesis
    unfolding rewrite_core_def
    by (intro preserves_bind preserves_after preserves_lift preserves_simple
        preserves_write_text_file et assms host_view_log(1) [OF assms])
qed

lemma safe_parse_blind:
  assumes "host_view f"
  shows "f (snd (safe_parse_xml e p w)) = f w"
  by (simp add: safe_parse_xml_def host_view_log [OF assms] split: sum.splits)

lemma preserves_fix_core:
  assumes hv: "host_view f"
  shows "preserves f (fix_core_properties e)"
  unfolding preserves_def
proof
  fix w
  obtain ok content w1 where sp: "safe_parse_xml e core_path w = ((ok, content), w1)"
    by (cases "safe_parse_xml e core_path w") auto
  with safe_parse_blind [OF hv, of e core_path w] have w1: "f w1 = f w" by simp
  have wr_min: "preserves f (bind (write_text_file e core_path body)
                (\<lambda>_. lift (add_action e ''Wrote minimal core.xml'')))" for body
    by (intro preserves_bind preserves_lift preserves_write_text_file hv
        host_view_log(1) [OF hv])
  obtain r w2 where rw: "rewrite_core e content w1 = (r, w2)"
    by (cases "rewrite_core e content w1")
  from preservesD [OF preserves_rewrite_core rw, of f] hv have w2: "f w2 = f w1" by simp
  show "f (snd (fix_core_properties e w)) = f w"
  proof (cases "path_exists (scratch w) core_path")
    case False
    then show ?thesis by (simp add: fix_core_properties_def host_view_log [OF hv])
  next
    case True
    show ?thesis
    proof (cases ok)
      case False
      with True sp w1 wr_min [unfolded preserves_def, rule_format,
          of _ "(add_action e ''Attempting to rewrite core.xml with safer template.'' w1)
                  \<lparr>ticks := Suc (Suc (ticks (add_action e ''Attempting to rewrite core.xml with safer template.'' w1)))\<rparr>"]
      show ?thesis by (simp add: fix_core_properties_def Let_def host_view_log [OF hv])
    next
      case ok: True
      with True sp rw w1 w2 show ?thesis
        by (cases r) (simp_all add: fix_core_properties_def host_view_log [OF hv])
    qed
  qed
qed

lemma sanitize_one_blind:
  assumes hv: "host_view f"
  shows "f (sanitize_one e rel w) = f w"
proof -
  obtain ok content w1 where sp: "safe_parse_xml e rel w = ((ok, content), w1)"
    by (cases "safe_parse_xml e rel w") auto
  with safe_parse_blind [OF hv, of e rel w] have w1: "f w1 = f w" by simp
  obtain r w2 where wr: "write_text_file e rel content w1 = (r, w2)"
    by (cases "write_text_file e rel content w1")
  from preservesD [OF preserves_write_text_file [OF hv] wr] have w2: "f w2 = f w1" .
  show ?thesis
    using sp w1 wr w2 by (cases r) (simp_all add: sanitize_one_def host_view_log [OF hv])
qed

lemma sanitize_files_blind:
  "host_view f \<Longrightarrow> f (sanitize_xml_files e rels w) = f w"
  by (induction rels arbitrary: w) (simp_all add: sanitize_one_blind)

lemma preserves_move: "host_view f \<Longrightarrow> preserves f (move e src dst)"
  by (simp add: preserves_def move_def Let_def host_view_log [of f])

lemma preserves_remove_custom_xml:
  assumes hv: "host_view f"
  shows "preserves f (remove_custom_xml e)"
proof -
  have "preserves f (bind (move e [''customXml''] [''customXml.removed'']) (\<lambda>_.
           lift (add_action e
             ''Moved customXml to customXml.removed (some Word versions choke on custom XML).'')))"
    by (intro preserves_bind preserves_lift preserves_move hv host_view_log(1) [OF hv])
  then show ?thesis
    by (simp add: preserves_def remove_custom_xml_def)
qed

lemma preserves_unzip: "host_view f \<Longrightarrow> preserves f (unzip_to_temp e inp)"
  by (simp add: preserves_def unzip_to_temp_def Let_def host_view_log [of f]
      split: option.splits fdata.splits)

lemma try_open_blind:
  "host_view f \<Longrightarrow> f (snd (try_open_with_python_docx e p w)) = f w"
  by (simp add: try_open_with_python_docx_def host_view_log [of f] split: option.splits)

lemma ensure_pandoc_blind:
  "host_view f \<Longrightarrow> f (snd (ensure_pandoc_available e w)) = f w"
  by (simp add: ensure_pandoc_available_def host_view_log [of f] split: option.splits)

text \<open>The calls that write host files.\<close>

lemma log_view_host_write:
  assumes "log_view f"
  shows "f (w\<lparr>files := g\<rparr>) = f w"
    "f (w\<lparr>rep := (rep w)\<lparr>backup_path := b\<rparr>\<rparr>) = f w"
  by (rule log_viewI [OF assms]; simp)+

lemma preserves_copy2: "log_view f \<Longrightarrow> preserves f (copy2 e src dst)"
  by (simp add: preserves_def copy2_def log_view_host_write [of f] split: option.splits)

lemma preserves_rezip:
  assumes lv: "log_view f"
  shows "preserves f (rezip_from_temp e out)"
  by (simp add: preserves_def rezip_from_temp_def log_view_host_write [OF lv]
      host_view_log [OF log_view_host [OF lv]])

lemma preserves_backup:
  assumes lv: "log_view f"
  shows "preserves f (backup_file e inp)"
proof -
  have "preserves f (bind (pure (with_suffix inp (suffix_of (name inp) @ ''.backup.'' @ s))) (\<lambda>dst.
      bind (copy2 e inp dst) (\<lambda>_.
      bind (lift (\<lambda>w1. w1\<lparr>rep := (rep w1)\<lparr>backup_path := Some (path_str dst)\<rparr>\<rparr>)) (\<lambda>_.
      bind (lift (add_action e (''Backed up original file to '' @ path_str dst))) (\<lambda>_.
      ret dst)))))" for s
    by (intro preserves_bind preserves_lift preserves_simple preserves_copy2 lv
         log_view_host_write(2) [OF lv] host_view_log(1) [OF log_view_host [OF lv]])
  then show ?thesis
    using host_view_log(4) [OF log_view_host [OF lv]]
    by (simp add: preserves_def backup_file_def Let_def)
qed

text \<open>The conversion fallback adds only conversion and unlink events to the trace.\<close>

lemma run_view_tool:
  assumes "run_view f"
  shows "f (w\<lparr>trace := trace w @ [Convert a b c]\<rparr>) = f w"
    "f (w\<lparr>files := g, trace := trace w @ [Unlink p]\<rparr>) = f w"
  by (rule run_viewI [OF assms]; simp)+

lemma preserves_convert_file:
  assumes rv: "run_view f"
  shows "preserves f (convert_file e src fmt dst)"
proof -
  have a: "f (w\<lparr>trace := trace w @ [ev]\<rparr>) = f w" if "ev = Convert x y z" for w ev x y z
    using that by (intro run_viewI [OF rv]) simp_all
  have b: "f (w\<lparr>trace := trace w @ [ev], files := g\<rparr>) = f w" if "ev = Convert x y z"
    for w ev g x y z
    using that by (intro run_viewI [OF rv]) simp_all
  show ?thesis
    by (simp add: preserves_def convert_file_def Let_def a b split: option.splits sum.splits)
qed

lemma cleanup_blind:
  assumes rv: "run_view f"
  shows "f (cleanup e fs w) = f w"
proof (induction fs arbitrary: w)
  case Nil
  show ?case by simp
next
  case (Cons p fs)
  have "f (unlink_quietly e p w) = f w"
    by (simp add: unlink_quietly_def run_view_tool(2) [OF rv])
  with Cons show ?case by simp
qed

lemma preserves_convert_steps:
  assumes rv: "run_view f"
  shows "preserves f (convert_steps e out tmp md)"
  unfolding convert_steps_def
  by (intro preserves_bind preserves_lift preserves_simple preserves_fun_if
      preserves_convert_file preserves_copy2 run_view_log rv
      host_view_log(1) [OF log_view_host [OF run_view_log [OF rv]]])

lemma preserves_pandoc_roundtrip:
  assumes rv: "run_view f"
  shows "preserves f (pandoc_roundtrip e out)"
proof -
  note hv = log_view_host [OF run_view_log [OF rv]]
  have tail: "preserves f (\<lambda>w2. case convert_steps e out tmp md w2 of
               (r, w3) \<Rightarrow>
                 (let w4 = (case r of
                              Inl x \<Rightarrow> add_error e (''Pandoc roundtrip failed: '' @ x) w3
                            | Inr b \<Rightarrow> w3);
                      w5 = cleanup e [tmp, md] w4
                  in (Inr (case r of Inl x \<Rightarrow> False | Inr b \<Rightarrow> b), w5)))" for tmp md
    unfolding preserves_def
  proof
    fix w2
    obtain r w3 where cs: "convert_steps e out tmp md w2 = (r, w3)"
      by (cases "convert_steps e out tmp md w2")
    from preservesD [OF preserves_convert_steps [OF rv] cs] have "f w3 = f w2" .
    with cs show "f (snd (case convert_steps e out tmp md w2 of
               (r, w3) \<Rightarrow>
                 (let w4 = (case r of
                              Inl x \<Rightarrow> add_error e (''Pandoc roundtrip failed: '' @ x) w3
                            | Inr b \<Rightarrow> w3);
                      w5 = cleanup e [tmp, md] w4
                  in (Inr (case r of Inl x \<Rightarrow> False | Inr b \<Rightarrow> b), w5)))) = f w2"
      by (cases r) (simp_all add: Let_def cleanup_blind [OF rv] host_view_log [OF hv]
          del: cleanup.simps)
  qed
  have chain: "preserves f (bind (pure (with_name out (stem_of (name out) @ ''.pandoc_temp.docx'')))
              (\<lambda>tmp_rezip.
            bind (rezip_from_temp e tmp_rezip) (\<lambda>_.
            bind (pure (with_suffix tmp_rezip ''.md'')) (\<lambda>md.
            (\<lambda>w2. case convert_steps e out tmp_rezip md w2 of
               (r, w3) \<Rightarrow>
                 (let w4 = (case r of
                              Inl x \<Rightarrow> add_error e (''Pandoc roundtrip failed: '' @ x) w3
                            | Inr b \<Rightarrow> w3);
                      w5 = cleanup e [tmp_rezip, md] w4
                  in (Inr (case r of Inl x \<Rightarrow> False | Inr b \<Rightarrow> b), w5)))))))"
    by (intro preserves_bind preserves_simple preserves_rezip run_view_log rv tail)
  show ?thesis
    unfolding preserves_def
  proof
    fix w
    obtain avail w1 where en: "ensure_pandoc_available e w = (avail, w1)"
      by (cases "ensure_pandoc_available e w")
    with ensure_pandoc_blind [OF hv, of e w] have "f w1 = f w" by simp
    with en chain [unfolded preserves_def, rule_format, of w1]
    show "f (snd (pandoc_roundtrip e out w)) = f w"
      by (simp add: pandoc_roundtrip_def)
  qed
qed

section \<open>Runs that fail at extraction, and the saved report\<close>

lemma suffix_split: "take (length n - length (suffix_of n)) n @ suffix_of n = n"
  by (auto simp: suffix_of_def split: option.splits)

lemma with_suffix_append:
  "name p \<noteq> [] \<Longrightarrow> with_suffix p (suffix_of (name p) @ s) = Inr (Path (parent p) (name p @ s))"
  using suffix_split [of "name p"] by (auto simp: with_suffix_def)

lemma backup_file_ok:
  assumes "name inp \<noteq> []" "files w inp = Some d"
    "writable e (Path (parent inp) (name inp @ ''.backup.'' @ stamp_at e (ticks w)))"
  shows "backup_file e inp w =
     (Inr (Path (parent inp) (name inp @ ''.backup.'' @ stamp_at e (ticks w))),
      add_action e (''Backed up original file to ''
          @ path_str (Path (parent inp) (name inp @ ''.backup.'' @ stamp_at e (ticks w))))
        (w\<lparr>ticks := Suc (ticks w),
           files := (files w)(Path (parent inp)
                       (name inp @ ''.backup.'' @ stamp_at e (ticks w)) \<mapsto> d),
           rep := (rep w)\<lparr>backup_path := Some (path_str (Path (parent inp)
                       (name inp @ ''.backup.'' @ stamp_at e (ticks w))))\<rparr>\<rparr>))"
proof -
  have ne: "inp \<noteq> Path (parent inp) (name inp @ ''.backup.'' @ stamp_at e (ticks w))"
    by (cases inp) simp
  show ?thesis
    using assms ne
    by (simp add: backup_file_def Let_def with_suffix_append copy2_def ret_def bind_def
        lift_def pure_def)
qed

lemma build_unreadable:
  assumes "files w inp = Some d" and "\<not> is_zip d" and "name inp \<noteq> []"
    and "writable e (Path (parent inp) (name inp @ ''.backup.'' @ stamp_at e (ticks w)))"
  shows "\<exists>w1. repair_build e inp outp w = (Inl (unzip_error e d), w1)
       \<and> map snd (errors (rep w1)) = map snd (errors (rep w))
             @ [''Failed to unzip '' @ path_str inp @ '': '' @ unzip_error e d]
       \<and> files w1 = (files w)(Path (parent inp)
                        (name inp @ ''.backup.'' @ stamp_at e (ticks w)) \<mapsto> d)
       \<and> backup_path (rep w1) = Some (path_str (Path (parent inp)
                        (name inp @ ''.backup.'' @ stamp_at e (ticks w))))
       \<and> trace w1 = trace w @ [Enter Backup, Enter Extract]"
proof -
  let ?bak = "Path (parent inp) (name inp @ ''.backup.'' @ stamp_at e (ticks w))"
  have ne: "inp \<noteq> ?bak" by (cases inp) simp
  have b: "backup_file e inp (enter Backup w) = (Inr ?bak,
      add_action e (''Backed up original file to '' @ path_str ?bak)
        ((enter Backup w)\<lparr>ticks := Suc (ticks w),
           files := (files w)(?bak \<mapsto> d),
           rep := (rep w)\<lparr>backup_path := Some (path_str ?bak)\<rparr>\<rparr>))"
    using assms backup_file_ok [of inp "enter Backup w" d e] by simp
  show ?thesis
    using assms(1,2) ne
    by (cases d)
       (simp_all add: repair_build_def staged_def bind_def b unzip_to_temp_def is_zip_def)
qed

text \<open>
  Claim C6, as amended. When the input exists, does not open as a zip container, and the
  backup copy can be written, the report ends with exactly two errors: the failed-unzip
  error logged by \<^verbatim>\<open>unzip_to_temp\<close>, and the entry the outer handler adds for the same
  exception when it is raised again. The backup was written before the extraction was
  attempted (the backup stage is entered first), so it exists after the failure and the
  report names it.
\<close>

theorem unreadable_package_two_errors:
  assumes "files w inp = Some d" and "\<not> is_zip d" and "name inp \<noteq> []"
    and "writable e (backup_target e inp w)"
  shows "map snd (errors (rep (repair_docx e inp outp w)))
           = [''Failed to unzip '' @ path_str inp @ '': '' @ unzip_error e d,
              ''Unexpected error during repair: '' @ unzip_error e d]
       \<and> files (repair_docx e inp outp w) (backup_target e inp w) = Some d
       \<and> backup_path (rep (repair_docx e inp outp w)) = Some (path_str (backup_target e inp w))
       \<and> trace (repair_docx e inp outp w) = trace w @ [Enter Backup, Enter Extract]"
proof -
  from build_unreadable [of "fresh e inp w" inp d e outp] assms
  obtain w1 where w1: "repair_build e inp outp (fresh e inp w) = (Inl (unzip_error e d), w1)"
    "map snd (errors (rep w1)) = [''Failed to unzip '' @ path_str inp @ '': '' @ unzip_error e d]"
    "files w1 = (files w)(backup_target e inp w \<mapsto> d)"
    "backup_path (rep w1) = Some (path_str (backup_target e inp w))"
    "trace w1 = trace w @ [Enter Backup, Enter Extract]"
    by (auto simp: backup_target_def)
  from assms(1) w1 show ?thesis
    by (simp add: repair_docx_def repair_body_def Let_def bind_def)
qed

theorem unreadable_package_two_errors_witness:
  "files (sample_world (Raw ''junk'')) sample_input = Some (Raw ''junk'')
   \<and> \<not> is_zip (Raw ''junk'') \<and> name sample_input \<noteq> []
   \<and> writable sample_env (backup_target sample_env sample_input (sample_world (Raw ''junk'')))
   \<and> map snd (errors (rep (repair_docx sample_env sample_input None
                               (sample_world (Raw ''junk'')))))
       = [''Failed to unzip '' @ path_str sample_input @ '': ''
            @ unzip_error sample_env (Raw ''junk''),
          ''Unexpected error during repair: '' @ unzip_error sample_env (Raw ''junk'')]
   \<and> files (repair_docx sample_env sample_input None (sample_world (Raw ''junk'')))
         (backup_target sample_env sample_input (sample_world (Raw ''junk'')))
       = Some (Raw ''junk'')"
proof -
  have h1: "files (sample_world (Raw ''junk'')) sample_input = Some (Raw ''junk'')"
    by (simp add: sample_world_def)
  have h2: "\<not> is_zip (Raw ''junk'')" by (simp add: is_zip_def)
  have h3: "name sample_input \<noteq> []" by (simp add: sample_input_def)
  have h4: "writable sample_env
              (backup_target sample_env sample_input (sample_world (Raw ''junk'')))"
    by (simp add: sample_env_def)
  from unreadable_package_two_errors [OF h1 h2 h3 h4, of None] h1 h2 h3 h4
  show ?thesis by simp
qed

text \<open>The claim as stated (exactly one error entry) fails on the sample input whose
  content is not a zip container.\<close>

theorem unreadable_package_counterexample:
  "map snd (errors (rep (repair_docx sample_env sample_input None
                           (sample_world (Raw ''junk'')))))
     = [''Failed to unzip docs/memo.docx: File is not a zip file'',
        ''Unexpected error during repair: File is not a zip file'']
   \<and> length (errors (rep (repair_docx sample_env sample_input None
                           (sample_world (Raw ''junk''))))) \<noteq> 1"
  by code_simp

section \<open>When the report is saved\<close>

lemma preserves_build_saves:
  "preserves (\<lambda>w. saves_of (trace w)) (repair_build e inp outp)"
  unfolding repair_build_def
  by (intro preserves_bind preserves_staged preserves_backup preserves_unzip
      preserves_fix_core preserves_lift preserves_remove_custom_xml preserves_rezip
      preserves_simple sanitize_files_blind log_view_host run_view_log views) simp_all

lemma preserves_fallback_saves:
  "preserves (\<lambda>w. saves_of (trace w)) (fallback_if_needed e out ok)"
  unfolding fallback_if_needed_def
  by (intro preserves_if preserves_bind preserves_staged preserves_lift
      preserves_pandoc_roundtrip views) simp_all

lemma bind_staged [simp]: "bind (staged s m) g w = bind m g (enter s w)"
  by (simp add: bind_def staged_def)

lemma staged_lift [simp]: "staged s (lift f) w = (Inr (), f (enter s w))"
  by (simp add: staged_def lift_def)

lemma bind_save:
  "bind (save e p) g w =
     (if writable e p
      then g () (w\<lparr>files := (files w)(p \<mapsto> Json (rep w)), trace := trace w @ [Save p]\<rparr>)
      else (Inl (oserror e (path_str p)), w))"
  by (simp add: bind_def save_def)

lemma persist_cases:
  assumes "persist e inp out ok w = (r, w')"
  shows "(\<exists>x. r = Inl x \<and> saves_of (trace w') = saves_of (trace w))
       \<or> (r = Inr () \<and> persisted e inp w w')"
proof (cases "with_suffix inp ''.repair_report.json''")
  case (Inl x)
  with assms show ?thesis by (auto simp: persist_def set_final_def)
next
  case (Inr rf)
  show ?thesis
  proof (cases "writable e rf")
    case False
    with Inr assms show ?thesis
      by (auto simp: persist_def set_final_def bind_save)
  next
    case True
    with Inr assms have "r = Inr () \<and> persisted e inp w w'"
      unfolding persisted_def
      by (intro conjI exI [of _ rf] exI [of _ "rep (set_final out ok w)"])
         (auto simp: persist_def set_final_def bind_save
            remove_temp_def saved_actions_def saved_errors_def split: option.splits)
    then show ?thesis by simp
  qed
qed

lemma persisted_shift:
  "saves_of (trace w1) = saves_of (trace w) \<Longrightarrow> persisted e inp w1 w' \<Longrightarrow> persisted e inp w w'"
  by (simp add: persisted_def)

lemma finish_cases:
  assumes "repair_finish e inp out w = (r, w')"
  shows "(\<exists>x. r = Inl x \<and> saves_of (trace w') = saves_of (trace w))
       \<or> (r = Inr () \<and> persisted e inp w w')"
proof -
  let ?w1 = "enter Validate (add_action e ''Attempting to validate repaired docx with python-docx.'' w)"
  obtain ok w2 where t: "try_open_with_python_docx e out ?w1 = (ok, w2)"
    by (cases "try_open_with_python_docx e out ?w1")
  from try_open_blind [of "\<lambda>w. saves_of (trace w)" e out ?w1] t
  have s2: "saves_of (trace w2) = saves_of (trace w)"
    by (simp add: log_view_host run_view_log)
  from assms t have b: "bind (fallback_if_needed e out ok) (\<lambda>_. persist e inp out ok) w2 = (r, w')"
    by (simp add: repair_finish_def)
  from b [unfolded bind_cases] show ?thesis
  proof (elim disjE exE conjE)
    fix x assume "r = Inl x" "fallback_if_needed e out ok w2 = (Inl x, w')"
    with preservesD [OF preserves_fallback_saves, of e out ok w2 "Inl x" w'] s2
    show ?thesis by simp
  next
    fix a w3 assume f: "fallback_if_needed e out ok w2 = (Inr a, w3)"
      and p: "persist e inp out ok w3 = (r, w')"
    from preservesD [OF preserves_fallback_saves f] s2
    have s3: "saves_of (trace w3) = saves_of (trace w)" by simp
    from persist_cases [OF p] s3 show ?thesis
      by (auto intro: persisted_shift)
  qed
qed

lemma body_cases:
  assumes "repair_body e inp outp w = (r, w')"
  shows "(\<exists>x. r = Inl x \<and> saves_of (trace w') = saves_of (trace w))
       \<or> (r = Inr () \<and> persisted e inp w w')"
  using assms [unfolded repair_body_def bind_cases]
proof (elim disjE exE conjE)
  fix x assume "r = Inl x" "repair_build e inp outp w = (Inl x, w')"
  with preservesD [OF preserves_build_saves, of e inp outp w "Inl x" w']
  show ?thesis by simp
next
  fix out w1 assume b: "repair_build e inp outp w = (Inr out, w1)"
    and f: "repair_finish e inp out w1 = (r, w')"
  from preservesD [OF preserves_build_saves b]
  have "saves_of (trace w1) = saves_of (trace w)" .
  with finish_cases [OF f] show ?thesis
    by (auto intro: persisted_shift)
qed

text \<open>
  Claim C9, as amended. A run that completes saves the report exactly once, after the
  final fields are set; the saved file is not written again, but the report itself is
  extended afterwards by the save action and by the action or error of removing the
  scratch directory, which the saved copy lacks. A run that does not complete (missing
  input, failed extraction, or any other exception that leaves the body) saves no report.
\<close>

theorem report_saved_once:
  "(completes e inp outp w \<longrightarrow> persisted e inp w (repair_docx e inp outp w))
   \<and> (\<not> completes e inp outp w \<longrightarrow>
        saves_of (trace (repair_docx e inp outp w)) = saves_of (trace w))"
proof (cases "files w inp = None")
  case True
  then show ?thesis by (simp add: completes_def repair_docx_def Let_def)
next
  case False
  obtain r w1 where b: "repair_body e inp outp (fresh e inp w) = (r, w1)"
    by (cases "repair_body e inp outp (fresh e inp w)")
  from body_cases [OF b] show ?thesis
  proof (elim disjE exE conjE)
    fix x assume "r = Inl x" "saves_of (trace w1) = saves_of (trace (fresh e inp w))"
    with False b show ?thesis by (auto simp: completes_def repair_docx_def Let_def)
  next
    assume "r = Inr ()" and p: "persisted e inp (fresh e inp w) w1"
    from p have "persisted e inp w w1" by (simp add: persisted_def)
    with \<open>r = Inr ()\<close> False b show ?thesis
      by (auto simp: completes_def repair_docx_def Let_def)
  qed
qed


theorem report_saved_once_witness:
  "completes sample_env sample_input None (sample_world (Zip sample_tree))
   \<and> persisted sample_env sample_input (sample_world (Zip sample_tree))
         (repair_docx sample_env sample_input None (sample_world (Zip sample_tree)))
   \<and> \<not> completes sample_env sample_input None (sample_world (Raw ''junk''))
   \<and> saves_of (trace (repair_docx sample_env sample_input None (sample_world (Raw ''junk''))))
       = saves_of (trace (sample_world (Raw ''junk'')))"
proof -
  have h1: "completes sample_env sample_input None (sample_world (Zip sample_tree))"
    by code_simp
  have h2: "\<not> completes sample_env sample_input None (sample_world (Raw ''junk''))"
    by code_simp
  from report_saved_once [of sample_env sample_input None "sample_world (Zip sample_tree)"]
    report_saved_once [of sample_env sample_input None "sample_world (Raw ''junk'')"] h1 h2
  show ?thesis by blast
qed

text \<open>The claim as stated fails: the run on an input that is not a zip container ends at
  extraction and leaves no report file.\<close>

theorem report_not_saved_counterexample:
  "files (repair_docx sample_env sample_input None (sample_world (Raw ''junk'')))
     sample_report_file = None
   \<and> saves_of (trace (repair_docx sample_env sample_input None (sample_world (Raw ''junk''))))
       = []"
  by code_simp

section \<open>A package without core properties\<close>










lemma copy2_keeps_source: "files (snd (copy2 e src dst w)) src = files w src"
  by (simp add: copy2_def split: option.splits)










section \<open>Blank title and blank creator\<close>

text \<open>
  Claim C2. The title check of the source treats a blank title as missing and inserts the
  default at the front. The creator check does not: it tests only for a missing element
  (line 200), so core properties whose creator element is present but empty are rewritten
  with the creator still empty and no default inserted, although the specification's
  check calls that creator missing.
\<close>

theorem blank_creator_not_replaced:
  "title_missing sample_core_blank_title
   \<and> fst (ensure_tags sample_env sample_core_blank_title (sample_extracted []))
       = insert0 (new_element dc_title ''Repaired Document'') sample_core_blank_title
   \<and> spec_creator_missing sample_core
   \<and> \<not> creator_missing sample_core
   \<and> fst (ensure_tags sample_env sample_core (sample_extracted [])) = sample_core
   \<and> fst (fix_core_properties sample_env
            (sample_extracted [(core_path, serialize sample_core)])) = Inr ()
   \<and> scratch (snd (fix_core_properties sample_env
            (sample_extracted [(core_path, serialize sample_core)])))
       = [(core_path, serialize sample_core)]
   \<and> map snd (actions (rep (snd (fix_core_properties sample_env
            (sample_extracted [(core_path, serialize sample_core)])))))
       = [''Rewrote core.xml with ensured basic metadata'']"
  by code_simp

section \<open>The success flag of the report\<close>

lemma try_open_fst: "fst (try_open_with_python_docx e out w) = loads e out w"
  by (auto simp: try_open_with_python_docx_def loads_def split: option.splits)

lemma finish_unfold:
  "repair_finish e inp out w =
     bind (fallback_if_needed e out (loads e out w)) (\<lambda>_. persist e inp out (loads e out w))
       (validated e out w)"
proof -
  let ?w1 = "enter Validate
               (add_action e ''Attempting to validate repaired docx with python-docx.'' w)"
  have "loads e out ?w1 = loads e out w" by (simp add: loads_def)
  with try_open_fst [of e out ?w1]
  have "try_open_with_python_docx e out ?w1 = (loads e out w, validated e out w)"
    by (simp add: validated_def prod_eq_iff)
  then show ?thesis by (simp add: repair_finish_def)
qed

lemma validated_final [simp]:
  "final_docx_ok (rep (validated e out w)) = final_docx_ok (rep w)"
  using try_open_blind [of "\<lambda>w. final_docx_ok (rep w)" e out]
  by (simp add: validated_def log_view_host run_view_log)








section \<open>The files of the conversion fallback\<close>

lemma unlinks_of_append [simp]: "unlinks_of (xs @ ys) = unlinks_of xs @ unlinks_of ys"
  by (induction xs rule: unlinks_of.induct) simp_all

lemma rfind_dot_none: "CHR ''.'' \<notin> set ys \<Longrightarrow> rfind_dot ys = None"
  by (induction ys) auto

lemma rfind_dot_last: "CHR ''.'' \<notin> set ys \<Longrightarrow> rfind_dot (xs @ CHR ''.'' # ys) = Some (length xs)"
  by (induction xs) (simp_all add: rfind_dot_none)

lemma suffix_of_temp: "suffix_of (s @ ''.pandoc_temp.docx'') = ''.docx''"
proof -
  have "rfind_dot ((s @ ''.pandoc_temp'') @ CHR ''.'' # ''docx'') = Some (length (s @ ''.pandoc_temp''))"
    by (rule rfind_dot_last) simp
  then show ?thesis by (simp add: suffix_of_def)
qed

lemma with_suffix_temp: "with_suffix (temp_docx out) ''.md'' = Inr (temp_md out)"
  by (simp add: with_suffix_def temp_docx_def temp_md_def suffix_of_temp)

lemma with_suffix_last:
  "with_suffix p (s @ [c]) = Inr q \<Longrightarrow> last (name q) = c"
  by (auto simp: with_suffix_def split: if_splits)

lemma cleanup_keeps: "p \<notin> set fs \<Longrightarrow> files (cleanup e fs w) p = files w p"
  by (induction fs arbitrary: w) (auto simp: unlink_quietly_def)

lemma cleanup_unlinks:
  "set (unlinks_of (trace (cleanup e fs w))) \<subseteq> set (unlinks_of (trace w)) \<union> set fs"
proof (induction fs arbitrary: w)
  case Nil
  show ?case by simp
next
  case (Cons f fs)
  have "set (unlinks_of (trace (unlink_quietly e f w))) \<subseteq> set (unlinks_of (trace w)) \<union> {f}"
    by (auto simp: unlink_quietly_def)
  with Cons [of "unlink_quietly e f w"] show ?case by auto
qed

lemma convert_file_ok:
  assumes "files w src = Some d0" and "pandoc_convert e fmt d0 = Inr (Some d1)"
    and "writable e dst"
  shows "convert_file e src fmt dst w =
     (Inr (), w\<lparr>trace := trace w @ [Convert src fmt dst], files := (files w)(dst \<mapsto> d1)\<rparr>)"
  using assms by (simp add: convert_file_def Let_def)

lemma preserves_unlinks_copy2: "preserves (\<lambda>w. unlinks_of (trace w)) (copy2 e src dst)"
  by (simp add: preserves_def copy2_def split: option.splits)

lemma steps_result:
  assumes n: "name out \<noteq> []"
    and t: "files w (temp_docx out) = Some d0"
    and c1: "pandoc_convert e ''md'' d0 = Inr (Some m)"
    and c2: "pandoc_convert e ''docx'' m = Inr (Some d)"
    and wr: "writable e (temp_md out)" "writable e (rebuilt_docx out)"
  shows "files (snd (convert_steps e out (temp_docx out) (temp_md out) w)) (rebuilt_docx out)
           = Some d
       \<and> unlinks_of (trace (snd (convert_steps e out (temp_docx out) (temp_md out) w)))
           = unlinks_of (trace w)"
proof -
  let ?w1 = "add_action e ''Running pandoc docx -> md'' w"
  let ?w2 = "?w1\<lparr>trace := trace ?w1 @ [Convert (temp_docx out) ''md'' (temp_md out)],
                  files := (files ?w1)(temp_md out \<mapsto> m)\<rparr>"
  let ?w3 = "add_action e ''Running pandoc md -> docx to rebuild structure''
               (add_action e (''Pandoc conversion to markdown saved at '' @ path_str (temp_md out))
                  ?w2)"
  let ?w4 = "?w3\<lparr>trace := trace ?w3 @ [Convert (temp_md out) ''docx'' (rebuilt_docx out)],
                  files := (files ?w3)(rebuilt_docx out \<mapsto> d)\<rparr>"
  have s1: "convert_file e (temp_docx out) ''md'' (temp_md out) ?w1 = (Inr (), ?w2)"
    using t c1 wr(1) by (intro convert_file_ok) simp_all
  have s2: "convert_file e (temp_md out) ''docx'' (rebuilt_docx out) ?w3 = (Inr (), ?w4)"
    using c2 wr(2) by (intro convert_file_ok) simp_all
  have wn: "with_name out (stem_of (name out) @ ''.pandoc_rebuilt.docx'') = Inr (rebuilt_docx out)"
    using n by (simp add: with_name_def rebuilt_docx_def)
  obtain r w5 where cp: "copy2 e (rebuilt_docx out) out ?w4 = (r, w5)"
    by (cases "copy2 e (rebuilt_docx out) out ?w4")
  from copy2_keeps_source [of e "rebuilt_docx out" out ?w4] cp
  have f5: "files w5 (rebuilt_docx out) = Some d" by simp
  from preservesD [OF preserves_unlinks_copy2 cp]
  have u5: "unlinks_of (trace w5) = unlinks_of (trace w)" by simp
  have "convert_steps e out (temp_docx out) (temp_md out) w =
          (case r of Inl x \<Rightarrow> (Inl x, w5)
           | Inr u \<Rightarrow> (Inr True, add_action e
                       (''Pandoc rebuilt document replaced repaired docx: '' @ path_str out) w5))"
    using s1 s2 wn cp
    by (cases r) (simp_all add: convert_steps_def bind_def lift_def ret_def pure_def)
  with f5 u5 show ?thesis by (cases r) simp_all
qed

lemma rebuilt_not_temp:
  "rebuilt_docx out \<noteq> temp_docx out" "rebuilt_docx out \<noteq> temp_md out"
  by (simp_all add: rebuilt_docx_def temp_docx_def temp_md_def)

lemma roundtrip_result:
  assumes "converts e out w d"
  shows "\<exists>b. fst (pandoc_roundtrip e out w) = Inr b"
    and "files (snd (pandoc_roundtrip e out w)) (rebuilt_docx out) = Some d"
    and "set (unlinks_of (trace (snd (pandoc_roundtrip e out w))))
           \<subseteq> set (unlinks_of (trace w)) \<union> {temp_docx out, temp_md out}"
proof -
  from assms obtain m where n: "name out \<noteq> []" and av: "has_pypandoc e" "pandoc_version e = None"
    and wr: "writable e (temp_docx out)" "writable e (temp_md out)" "writable e (rebuilt_docx out)"
    and c1: "pandoc_convert e ''md'' (Zip (regular (scratch w))) = Inr (Some m)"
    and c2: "pandoc_convert e ''docx'' m = Inr (Some d)"
    by (auto simp: converts_def tool_unavailable_def)
  let ?w1 = "add_action e ''pandoc found via pypandoc.'' w"
  let ?w2 = "add_action e (''Rebuilt docx as '' @ path_str (temp_docx out))
               (?w1\<lparr>files := (files ?w1)(temp_docx out \<mapsto> Zip (regular (scratch ?w1)))\<rparr>)"
  have en: "ensure_pandoc_available e w = (True, ?w1)"
    using av by (simp add: ensure_pandoc_available_def)
  have wn: "with_name out (stem_of (name out) @ ''.pandoc_temp.docx'') = Inr (temp_docx out)"
    using n by (simp add: with_name_def temp_docx_def)
  have rz: "rezip_from_temp e (temp_docx out) ?w1 = (Inr (), ?w2)"
    using wr(1) by (simp add: rezip_from_temp_def)
  obtain r w3 where cs: "convert_steps e out (temp_docx out) (temp_md out) ?w2 = (r, w3)"
    by (cases "convert_steps e out (temp_docx out) (temp_md out) ?w2")
  from steps_result [OF n _ _ c2 wr(2,3), of ?w2 "Zip (regular (scratch w))"] c1 cs
  have f3: "files w3 (rebuilt_docx out) = Some d"
    and u3: "unlinks_of (trace w3) = unlinks_of (trace w)" by simp_all
  let ?w4 = "case r of Inl x \<Rightarrow> add_error e (''Pandoc roundtrip failed: '' @ x) w3 | Inr b \<Rightarrow> w3"
  have f4: "files ?w4 (rebuilt_docx out) = Some d" and u4: "unlinks_of (trace ?w4) = unlinks_of (trace w)"
    using f3 u3 by (cases r; simp)+
  have run: "pandoc_roundtrip e out w =
      (Inr (case r of Inl x \<Rightarrow> False | Inr b \<Rightarrow> b), cleanup e [temp_docx out, temp_md out] ?w4)"
    using en wn rz cs
    by (simp add: pandoc_roundtrip_def bind_def with_suffix_temp pure_def Let_def
        del: cleanup.simps)
  show "\<exists>b. fst (pandoc_roundtrip e out w) = Inr b" by (simp add: run)
  show "files (snd (pandoc_roundtrip e out w)) (rebuilt_docx out) = Some d"
    using f4 rebuilt_not_temp [of out]
    by (simp add: run cleanup_keeps del: cleanup.simps)
  show "set (unlinks_of (trace (snd (pandoc_roundtrip e out w))))
           \<subseteq> set (unlinks_of (trace w)) \<union> {temp_docx out, temp_md out}"
    using cleanup_unlinks [of e "[temp_docx out, temp_md out]" ?w4] u4
    by (simp add: run del: cleanup.simps)
qed

lemma persist_keeps:
  assumes "last (name p) \<noteq> CHR ''n''"
  shows "files (snd (persist e inp out ok w)) p = files w p"
proof (cases "with_suffix inp ''.repair_report.json''")
  case (Inl x)
  then show ?thesis by (simp add: persist_def set_final_def)
next
  case (Inr rf)
  with with_suffix_last [of inp "''.repair_report.jso''" "CHR ''n''" rf]
  have "last (name rf) = CHR ''n''" by simp
  with assms have "rf \<noteq> p" by auto
  with Inr show ?thesis
    by (auto simp: persist_def set_final_def bind_save remove_temp_def split: option.splits)
qed

lemma validated_fields [simp]:
  "scratch (validated e out w) = scratch w" "files (validated e out w) = files w"
  by (simp_all add: validated_def try_open_with_python_docx_def split: option.splits)

lemma converts_cong: "scratch w' = scratch w \<Longrightarrow> converts e out w' d = converts e out w d"
  by (simp add: converts_def)

lemma finish_keeps_rebuilt:
  assumes c: "converts e out w d" and inv: "\<not> loads e out w"
  shows "files (snd (repair_finish e inp out w)) (rebuilt_docx out) = Some d"
proof -
  let ?w2 = "enter Fallback (add_action e
                  ''python-docx validation failed - attempting pandoc roundtrip fallback.''
                  (validated e out w))"
  from c have c2: "converts e out ?w2 d" by (simp add: converts_cong [of ?w2 w])
  obtain r w3 where p: "pandoc_roundtrip e out ?w2 = (r, w3)"
    by (cases "pandoc_roundtrip e out ?w2")
  from roundtrip_result(1,2) [OF c2] p obtain b where r: "r = Inr b"
    and f3: "files w3 (rebuilt_docx out) = Some d" by auto
  have x: "last (name (rebuilt_docx out)) \<noteq> CHR ''n''" by (simp add: rebuilt_docx_def)
  from p r f3 inv show ?thesis
    by (cases b)
       (simp_all add: finish_unfold fallback_if_needed_def bind_def lift_def staged_def
          persist_keeps [OF x])
qed

text \<open>
  Claim C10. When the second conversion step of the fallback succeeds, the package it
  produces lies next to the output path under the output stem followed by
  \<^verbatim>\<open>.pandoc_rebuilt.docx\<close>. The cleanup unlinks at most the throwaway package and the
  markdown file, neither of which is that file, and nothing later in the run writes or
  removes it: it is still there, with the produced content, when the run ends.
\<close>

theorem rebuilt_docx_remains:
  assumes "converts e out w d"
  shows "files (snd (pandoc_roundtrip e out w)) (rebuilt_docx out) = Some d
       \<and> set (unlinks_of (trace (snd (pandoc_roundtrip e out w))))
           \<subseteq> set (unlinks_of (trace w)) \<union> {temp_docx out, temp_md out}
       \<and> rebuilt_docx out \<notin> {temp_docx out, temp_md out}
       \<and> (\<not> loads e out w \<longrightarrow>
            files (snd (repair_finish e inp out w)) (rebuilt_docx out) = Some d)"
  using roundtrip_result(2,3) [OF assms] rebuilt_not_temp [of out]
    finish_keeps_rebuilt [OF assms, of inp]
  by simp

theorem rebuilt_docx_remains_witness:
  "converts sample_env_invalid sample_output sample_rebuilt (Raw ''docx'')
   \<and> \<not> loads sample_env_invalid sample_output sample_rebuilt
   \<and> files (snd (repair_finish sample_env_invalid sample_input sample_output sample_rebuilt))
         (rebuilt_docx sample_output) = Some (Raw ''docx'')
   \<and> rebuilt_docx sample_output = Path [''docs''] ''memo.repaired.pandoc_rebuilt.docx''"
proof -
  have h1: "converts sample_env_invalid sample_output sample_rebuilt (Raw ''docx'')"
    unfolding converts_def
    by (intro conjI exI [of _ "Raw ''md''"]; code_simp)
  have h2: "\<not> loads sample_env_invalid sample_output sample_rebuilt" by code_simp
  have h3: "rebuilt_docx sample_output = Path [''docs''] ''memo.repaired.pandoc_rebuilt.docx''"
    by code_simp
  from rebuilt_docx_remains [OF h1, of sample_input] h1 h2 h3 show ?thesis by simp
qed

section \<open>Which failures end the run\<close>



lemma validated_stages [simp]:
  "stages_of (trace (validated e out w)) = stages_of (trace w) @ [Validate]"
  using try_open_blind [of "\<lambda>w. stages_of (trace w)" e out]
  by (simp add: validated_def log_view_host run_view_log)





















end
